theory Spec2Isabelle
  imports Complex_Main
begin

section \<open>Numbers, style values and DOM nodes\<close>

text \<open>
  The hook \<open>useDraggable\<close> of \<open>src/index.tsx\<close> is embedded as functions on an explicit
  state. JavaScript numbers are modelled as reals: finite doubles, with rounding left out.
  The only division by a quantity that can be zero is the one by the client extent in the
  rubber-band formula; there JavaScript yields \<open>NaN\<close>, so a number that is written into a
  style string is a \<open>jsnum\<close>.
\<close>

datatype jsnum = Num real | NaN

text \<open>
  A value assigned to an inline style property: a string, the template string
  \<open>translate3d(${x}px, ${y}px, 0px)\<close> of \<open>rubberBandCallback\<close>, or \<open>undefined\<close> (what a
  variable that was never assigned, or an array read past its end, gives).
\<close>

datatype css = Css string | Translate3d jsnum jsnum | Undefined

datatype error = TypeError

text \<open>
  A child node of the container. The source reads its computed style
  (\<open>window.getComputedStyle(child)\<close>) and writes its inline style (\<open>child.style\<close>); these are
  different accessors and are kept apart. \<open>isHTMLElement\<close> is the outcome of
  \<open>child instanceof HTMLElement\<close>; \<open>clickListener\<close> says whether \<open>preventClick\<close> is registered
  for the child's click event. Children are elements (they have a computed and an inline
  style); an element that is not an HTMLElement is, for example, an SVG element.
\<close>

record child =
  isHTMLElement :: bool
  computedCursor :: string
  computedTransform :: string
  computedTransition :: string
  styleCursor :: css
  styleTransform :: css
  styleTransition :: css
  clickListener :: bool

text \<open>
  The container element \<open>ref.current\<close>. An assignment to \<open>scrollLeft\<close>, \<open>scrollTop\<close> or
  \<open>style.cursor\<close> stores the assigned value.
\<close>

record element =
  scrollLeft :: real
  scrollTop :: real
  scrollWidth :: nat
  clientWidth :: nat
  scrollHeight :: nat
  clientHeight :: nat
  overflowX :: string
  overflowY :: string
  elComputedCursor :: string
  elStyleCursor :: css
  childNodes :: "child list"

section \<open>The state of the hook\<close>

datatype mouse_button = Left | Middle | Right

record options =
  decayRate :: real
  safeDisplacement :: real
  applyRubberBandEffect :: bool
  activeMouseButton :: mouse_button
  isMounted :: bool

definition default_options :: options where
  "default_options =
     \<lparr>decayRate = 0.95, safeDisplacement = 10, applyRubberBandEffect = False,
      activeMouseButton = Left, isMounted = True\<rparr>"

text \<open>
  The callbacks that \<open>setInterval\<close> and \<open>setTimeout\<close> are given in \<open>callbackMomentum\<close>: the
  tick of the horizontal axis, the tick of the vertical axis, and \<open>recoverChildStyle\<close>.
\<close>

datatype timer = MomentumX | MomentumY | SnapBack

text \<open>
  Every render of the host component runs the body of the hook again and so makes a new
  closure, with \<open>let\<close> variables of its own. The window listeners and the timers keep the
  closure of the render whose effect created them. \<open>closure\<close> holds the variables of one
  closure (one that has not been assigned yet is \<open>None\<close>).
\<close>

record closure =
  c_isScrollableAlongX :: bool
  c_isScrollableAlongY :: bool
  c_maxHorizontalScroll :: real
  c_maxVerticalScroll :: real
  c_cursorStyleOfWrapperElement :: "string option"
  c_cursorStyleOfChildElements :: "string list option"
  c_transformStyleOfChildElements :: "string list option"
  c_transitionStyleOfChildElements :: "string list option"
  c_rubberBandAnimationTimer :: "nat option"
  c_keepMovingX :: "nat option"
  c_keepMovingY :: "nat option"

text \<open>
  The fields of \<open>internalState.current\<close> (a \<open>useRef\<close>, shared by all renders), the variables
  of the current closure (the one whose effects ran last), the container reference, whether
  the window listeners of \<open>useEffect\<close> are registered, and the platform's pool of live timers
  with the next handle it hands out. \<open>retired\<close> gives, for the handle of a timer that was
  created in an earlier closure and has outlived the cleanup of that closure, the variables
  of that closure: the timer's callback still reads them. Once the cleanup has run nothing
  assigns them any more (the listeners that could are removed), so the copy taken at the
  cleanup is what the callback sees.
\<close>

record state =
  isMouseDown :: bool
  isDraggingX :: bool
  isDraggingY :: bool
  initialMouseX :: real
  initialMouseY :: real
  lastMouseX :: real
  lastMouseY :: real
  scrollSpeedX :: real
  scrollSpeedY :: real
  lastScrollX :: real
  lastScrollY :: real
  isScrollableAlongX :: bool
  isScrollableAlongY :: bool
  maxHorizontalScroll :: real
  maxVerticalScroll :: real
  cursorStyleOfWrapperElement :: "string option"
  cursorStyleOfChildElements :: "string list option"
  transformStyleOfChildElements :: "string list option"
  transitionStyleOfChildElements :: "string list option"
  rubberBandAnimationTimer :: "nat option"
  keepMovingX :: "nat option"
  keepMovingY :: "nat option"
  ref_current :: "element option"
  listening :: bool
  timers :: "(nat \<times> timer) list"
  nextTimer :: nat
  retired :: "(nat \<times> closure) list"

definition initial_state :: "element option \<Rightarrow> state" where
  "initial_state r =
     \<lparr>isMouseDown = False, isDraggingX = False, isDraggingY = False,
      initialMouseX = 0, initialMouseY = 0, lastMouseX = 0, lastMouseY = 0,
      scrollSpeedX = 0, scrollSpeedY = 0, lastScrollX = 0, lastScrollY = 0,
      isScrollableAlongX = False, isScrollableAlongY = False,
      maxHorizontalScroll = 0, maxVerticalScroll = 0,
      cursorStyleOfWrapperElement = None, cursorStyleOfChildElements = None,
      transformStyleOfChildElements = None, transitionStyleOfChildElements = None,
      rubberBandAnimationTimer = None, keepMovingX = None, keepMovingY = None,
      ref_current = r, listening = False, timers = [], nextTimer = 1, retired = []\<rparr>"

definition timing :: real where
  "timing = (1 / 60) * 1000"

section \<open>Timers\<close>

text \<open>
  \<open>setInterval\<close> and \<open>setTimeout\<close> put a callback into the pool under a fresh handle and
  return the handle; \<open>clearInterval\<close> and \<open>clearTimeout\<close> remove the timer with the given
  handle, and do nothing for \<open>undefined\<close> or a handle that is no longer live.
\<close>

definition setTimer :: "timer \<Rightarrow> state \<Rightarrow> nat \<times> state" where
  "setTimer k st =
     (nextTimer st,
      st\<lparr>timers := timers st @ [(nextTimer st, k)], nextTimer := Suc (nextTimer st)\<rparr>)"

definition clearTimer :: "nat option \<Rightarrow> state \<Rightarrow> state" where
  "clearTimer h st =
     (case h of
        None \<Rightarrow> st
      | Some i \<Rightarrow> st\<lparr>timers := filter (\<lambda>p. fst p \<noteq> i) (timers st)\<rparr>)"

section \<open>The layout effect: geometry and style snapshot\<close>

definition noneToEmpty :: "string \<Rightarrow> string" where
  "noneToEmpty s = (if s = ''none'' then '''' else s)"

definition useLayoutEffect :: "options \<Rightarrow> state \<Rightarrow> state" where
  "useLayoutEffect opts st =
     (case ref_current st of
        None \<Rightarrow> st
      | Some el \<Rightarrow>
          if isMounted opts then
            st\<lparr>isScrollableAlongX := (overflowX el = ''scroll''),
               isScrollableAlongY := (overflowY el = ''scroll''),
               maxHorizontalScroll := real (scrollWidth el) - real (clientWidth el),
               maxVerticalScroll := real (scrollHeight el) - real (clientHeight el),
               cursorStyleOfWrapperElement := Some (elComputedCursor el),
               cursorStyleOfChildElements := Some (map computedCursor (childNodes el)),
               transformStyleOfChildElements :=
                 Some (map (\<lambda>c. noneToEmpty (computedTransform c)) (childNodes el)),
               transitionStyleOfChildElements :=
                 Some (map (\<lambda>c. noneToEmpty (computedTransition c)) (childNodes el))\<rparr>
          else st)"

section \<open>The live-scroll applier\<close>

definition runScroll :: "state \<Rightarrow> state" where
  "runScroll st =
     (case ref_current st of
        None \<Rightarrow> st
      | Some el \<Rightarrow>
          let dx = scrollSpeedX st * timing;
              dy = scrollSpeedY st * timing;
              offsetX = scrollLeft el + dx;
              offsetY = scrollTop el + dy
          in st\<lparr>ref_current := Some (el\<lparr>scrollLeft := offsetX, scrollTop := offsetY\<rparr>),
                lastScrollX := offsetX, lastScrollY := offsetY\<rparr>)"

section \<open>The rubber band\<close>

text \<open>
  The expression
  \<open>0.3 * size * Math.sign(d) * Math.log10(1.0 + (0.5 * Math.abs(d)) / size)\<close>
  that \<open>rubberBandCallback\<close> writes out for each axis. The client extent is a non-negative
  integer; for extent 0 the quotient is \<open>Infinity\<close> or \<open>NaN\<close> and the product is \<open>NaN\<close>.
\<close>

definition rubberBandTerm :: "nat \<Rightarrow> real \<Rightarrow> jsnum" where
  "rubberBandTerm extent d =
     (if extent = 0 then NaN
      else Num (0.3 * real extent * sgn d * log 10 (1.0 + (0.5 * \<bar>d\<bar>) / real extent)))"

definition rubberBandDisplacement ::
  "bool \<Rightarrow> bool \<Rightarrow> nat \<Rightarrow> nat \<Rightarrow> real \<Rightarrow> real \<Rightarrow> jsnum \<times> jsnum" where
  "rubberBandDisplacement scrollableX scrollableY cw ch dx dy =
     (if scrollableX \<and> scrollableY then (rubberBandTerm cw dx, rubberBandTerm ch dy)
      else if scrollableX then (rubberBandTerm cw dx, Num 0)
      else if scrollableY then (Num 0, rubberBandTerm ch dy)
      else (Num 0, Num 0))"

definition rubberBandCallback :: "state \<Rightarrow> real \<Rightarrow> real \<Rightarrow> state" where
  "rubberBandCallback st clientX clientY =
     (case ref_current st of
        None \<Rightarrow> st
      | Some el \<Rightarrow>
          let dx = clientX - initialMouseX st;
              dy = clientY - initialMouseY st;
              d = rubberBandDisplacement (isScrollableAlongX st) (isScrollableAlongY st)
                    (clientWidth el) (clientHeight el) dx dy
          in st\<lparr>ref_current := Some (el\<lparr>childNodes :=
                  map (\<lambda>c. if isHTMLElement c
                            then c\<lparr>styleTransform := Translate3d (fst d) (snd d),
                                   styleTransition := Css ''transform 0ms''\<rparr>
                            else c)
                      (childNodes el)\<rparr>)\<rparr>)"

section \<open>Restoring the children's transform and transition\<close>

text \<open>
  \<open>xs[i]\<close> on an array: \<open>undefined\<close> past the end. On a variable that holds \<open>undefined\<close>
  the read raises a TypeError, which is how the loop of \<open>recoverChildStyle\<close> fails when the
  snapshot was never taken. An exception comes with the state in which it leaves the hook:
  the writes made before it stay.
\<close>

definition arrayGet :: "string list \<Rightarrow> nat \<Rightarrow> css" where
  "arrayGet xs i = (if i < length xs then Css (xs ! i) else Undefined)"

fun recoverChildren ::
  "string list option \<Rightarrow> string list option \<Rightarrow> nat \<Rightarrow> child list \<Rightarrow>
     (error \<times> child list) + child list" where
  "recoverChildren tf tr i [] = Inr []"
| "recoverChildren tf tr i (c # cs) =
     (if isHTMLElement c then
        (case tf of
           None \<Rightarrow> Inl (TypeError, c # cs)
         | Some tfs \<Rightarrow>
             (case tr of
                None \<Rightarrow> Inl (TypeError, c\<lparr>styleTransform := arrayGet tfs i\<rparr> # cs)
              | Some trs \<Rightarrow>
                  (case recoverChildren tf tr (Suc i) cs of
                     Inl p \<Rightarrow>
                       Inl (fst p, c\<lparr>styleTransform := arrayGet tfs i,
                                     styleTransition := arrayGet trs i\<rparr> # snd p)
                   | Inr cs' \<Rightarrow>
                       Inr (c\<lparr>styleTransform := arrayGet tfs i,
                              styleTransition := arrayGet trs i\<rparr> # cs'))))
      else
        (case recoverChildren tf tr (Suc i) cs of
           Inl p \<Rightarrow> Inl (fst p, c # snd p)
         | Inr cs' \<Rightarrow> Inr (c # cs')))"

definition recoverChildStyle :: "state \<Rightarrow> (error \<times> state) + state" where
  "recoverChildStyle st =
     (case ref_current st of
        None \<Rightarrow> Inr st
      | Some el \<Rightarrow>
          (case recoverChildren (transformStyleOfChildElements st)
                  (transitionStyleOfChildElements st) 0 (childNodes el) of
             Inl p \<Rightarrow> Inl (fst p, st\<lparr>ref_current := Some (el\<lparr>childNodes := snd p\<rparr>)\<rparr>)
           | Inr cs \<Rightarrow> Inr (st\<lparr>ref_current := Some (el\<lparr>childNodes := cs\<rparr>)\<rparr>)))"

section \<open>The momentum engine\<close>

definition minimumSpeedToTriggerMomentum :: real where
  "minimumSpeedToTriggerMomentum = 0.05"

text \<open>The callback of the interval \<open>keepMovingX\<close>: one tick of the horizontal axis.\<close>

definition keepMovingX_tick :: "options \<Rightarrow> state \<Rightarrow> state" where
  "keepMovingX_tick opts st =
     (case ref_current st of
        None \<Rightarrow> st
      | Some el \<Rightarrow>
          let lastScrollSpeedX = scrollSpeedX st;
              newScrollSpeedX = lastScrollSpeedX * decayRate opts;
              st1 = st\<lparr>scrollSpeedX := newScrollSpeedX\<rparr>;
              isAtLeft = (scrollLeft el \<le> 0);
              isAtRight = (scrollLeft el \<ge> maxHorizontalScroll st1);
              hasReachedHorizontalEdges = (isAtLeft \<or> isAtRight);
              st2 = runScroll st1
          in if \<bar>newScrollSpeedX\<bar> < minimumSpeedToTriggerMomentum \<or> isMouseDown st2 \<or>
                hasReachedHorizontalEdges
             then clearTimer (keepMovingX st2) (st2\<lparr>scrollSpeedX := 0\<rparr>)
             else st2)"

text \<open>The callback of the interval \<open>keepMovingY\<close>: one tick of the vertical axis.\<close>

definition keepMovingY_tick :: "options \<Rightarrow> state \<Rightarrow> state" where
  "keepMovingY_tick opts st =
     (case ref_current st of
        None \<Rightarrow> st
      | Some el \<Rightarrow>
          let lastScrollSpeedY = scrollSpeedY st;
              newScrollSpeedY = lastScrollSpeedY * decayRate opts;
              st1 = st\<lparr>scrollSpeedY := newScrollSpeedY\<rparr>;
              isAtTop = (scrollTop el \<le> 0);
              isAtBottom = (scrollTop el \<ge> maxVerticalScroll st1);
              hasReachedVerticalEdges = (isAtTop \<or> isAtBottom);
              st2 = runScroll st1
          in if \<bar>newScrollSpeedY\<bar> < minimumSpeedToTriggerMomentum \<or> isMouseDown st2 \<or>
                hasReachedVerticalEdges
             then clearTimer (keepMovingY st2) (st2\<lparr>scrollSpeedY := 0\<rparr>)
             else st2)"

definition callbackMomentum :: "options \<Rightarrow> state \<Rightarrow> state" where
  "callbackMomentum opts st =
     (case ref_current st of
        None \<Rightarrow> st
      | Some el \<Rightarrow>
          let tx = setTimer MomentumX st;
              st1 = (snd tx)\<lparr>keepMovingX := Some (fst tx)\<rparr>;
              ty = setTimer MomentumY st1;
              st2 = (snd ty)\<lparr>keepMovingY := Some (fst ty)\<rparr>;
              st3 = st2\<lparr>isDraggingX := False, isDraggingY := False\<rparr>
          in if applyRubberBandEffect opts then
               let st4 = st3\<lparr>ref_current := Some (el\<lparr>childNodes :=
                           map (\<lambda>c. c\<lparr>styleTransform := Css ''translate3d(0px, 0px, 0px)'',
                                      styleTransition := Css ''transform 250ms''\<rparr>)
                               (childNodes el)\<rparr>)\<rparr>;
                   tr = setTimer SnapBack st4
               in (snd tr)\<lparr>rubberBandAnimationTimer := Some (fst tr)\<rparr>
             else st3)"

section \<open>The pointer handlers\<close>

definition getIsMousePressActive :: "options \<Rightarrow> nat \<Rightarrow> bool" where
  "getIsMousePressActive opts buttonsCode =
     ((activeMouseButton opts = Left \<and> buttonsCode = 1) \<or>
      (activeMouseButton opts = Middle \<and> buttonsCode = 4) \<or>
      (activeMouseButton opts = Right \<and> buttonsCode = 2))"

definition onMouseDown :: "options \<Rightarrow> state \<Rightarrow> nat \<Rightarrow> real \<Rightarrow> real \<Rightarrow> state" where
  "onMouseDown opts st buttons clientX clientY =
     (if getIsMousePressActive opts buttons then
        (case ref_current st of
           None \<Rightarrow> st
         | Some el \<Rightarrow>
             st\<lparr>isMouseDown := True, lastMouseX := clientX, lastMouseY := clientY,
                initialMouseX := clientX, initialMouseY := clientY\<rparr>)
      else st)"

text \<open>
  The drag confirmation of \<open>onMouseUp\<close>: \<open>isDragging && isMotionIntentional\<close>.
\<close>

definition isDraggingConfirmed :: "options \<Rightarrow> state \<Rightarrow> real \<Rightarrow> real \<Rightarrow> bool" where
  "isDraggingConfirmed opts st clientX clientY =
     (let isDragging = (isDraggingX st \<or> isDraggingY st);
          dx = initialMouseX st - clientX;
          dy = initialMouseY st - clientY;
          isMotionIntentional =
            (\<bar>dx\<bar> > safeDisplacement opts \<or> \<bar>dy\<bar> > safeDisplacement opts)
      in isDragging \<and> isMotionIntentional)"

definition optCss :: "string option \<Rightarrow> css" where
  "optCss v = (case v of None \<Rightarrow> Undefined | Some s \<Rightarrow> Css s)"

definition restoreChildCursor :: "string list option \<Rightarrow> nat \<times> child \<Rightarrow> child" where
  "restoreChildCursor cursors p =
     (case cursors of
        None \<Rightarrow> snd p
      | Some cs \<Rightarrow>
          if isHTMLElement (snd p) then (snd p)\<lparr>styleCursor := arrayGet cs (fst p)\<rparr>
          else snd p)"

definition onMouseUp :: "options \<Rightarrow> state \<Rightarrow> real \<Rightarrow> real \<Rightarrow> state" where
  "onMouseUp opts st clientX clientY =
     (case ref_current st of
        None \<Rightarrow> st
      | Some el \<Rightarrow>
          let confirmed = isDraggingConfirmed opts st clientX clientY;
              listened = map (\<lambda>c. c\<lparr>clickListener := confirmed\<rparr>) (childNodes el);
              st1 = st\<lparr>isMouseDown := False, lastMouseX := 0, lastMouseY := 0\<rparr>;
              restored = map (restoreChildCursor (cursorStyleOfChildElements st1))
                           (enumerate 0 listened);
              st2 = st1\<lparr>ref_current := Some (el\<lparr>
                      elStyleCursor := optCss (cursorStyleOfWrapperElement st1),
                      childNodes := restored\<rparr>)\<rparr>
          in if confirmed then callbackMomentum opts st2 else st2)"

text \<open>
  The edge test of \<open>onMouseMove\<close> (\<open>isAtAnEdge\<close>), which asks for a scrollable axis.
\<close>

definition isAtAnEdge :: "state \<Rightarrow> element \<Rightarrow> bool" where
  "isAtAnEdge st el =
     (let isAtLeft = (scrollLeft el \<le> 0 \<and> isScrollableAlongX st);
          isAtRight = (scrollLeft el \<ge> maxHorizontalScroll st \<and> isScrollableAlongX st);
          isAtTop = (scrollTop el \<le> 0 \<and> isScrollableAlongY st);
          isAtBottom = (scrollTop el \<ge> maxVerticalScroll st \<and> isScrollableAlongY st)
      in isAtLeft \<or> isAtRight \<or> isAtTop \<or> isAtBottom)"

definition onMouseMove :: "options \<Rightarrow> state \<Rightarrow> real \<Rightarrow> real \<Rightarrow> state" where
  "onMouseMove opts st clientX clientY =
     (if isMouseDown st then
        (case ref_current st of
           None \<Rightarrow> st
         | Some el \<Rightarrow>
             let dx = lastMouseX st - clientX;
                 dy = lastMouseY st - clientY;
                 st1 = st\<lparr>lastMouseX := clientX, scrollSpeedX := dx / timing,
                         isDraggingX := True,
                         lastMouseY := clientY, scrollSpeedY := dy / timing,
                         isDraggingY := True\<rparr>;
                 el1 = el\<lparr>elStyleCursor := Css ''grabbing'',
                         childNodes :=
                           map (\<lambda>c. if isHTMLElement c then c\<lparr>styleCursor := Css ''grabbing''\<rparr>
                                     else c)
                               (childNodes el)\<rparr>;
                 st2 = st1\<lparr>ref_current := Some el1\<rparr>;
                 st3 = (if isAtAnEdge st2 el1 \<and> applyRubberBandEffect opts
                        then rubberBandCallback st2 clientX clientY else st2)
             in runScroll st3)
      else st)"

definition handleResize :: "state \<Rightarrow> state" where
  "handleResize st =
     (case ref_current st of
        None \<Rightarrow> st
      | Some el \<Rightarrow>
          st\<lparr>maxHorizontalScroll := real (scrollWidth el) - real (clientWidth el),
             maxVerticalScroll := real (scrollHeight el) - real (clientHeight el)\<rparr>)"

section \<open>Subscription, cleanup and the event loop\<close>

definition useEffect :: "options \<Rightarrow> state \<Rightarrow> state" where
  "useEffect opts st = (if isMounted opts then st\<lparr>listening := True\<rparr> else st)"

definition useEffect_cleanup :: "state \<Rightarrow> state" where
  "useEffect_cleanup st =
     (let st1 = st\<lparr>listening := False\<rparr>;
          st2 = clearTimer (keepMovingX st1) st1;
          st3 = clearTimer (keepMovingY st2) st2
      in clearTimer (rubberBandAnimationTimer st3) st3)"

text \<open>The first render: the layout effect runs, then the effect.\<close>

definition mount :: "options \<Rightarrow> element option \<Rightarrow> state" where
  "mount opts r = useEffect opts (useLayoutEffect opts (initial_state r))"

text \<open>
  The variables of the current closure, the state with the variables of a closure put in
  their place, and the variables a render starts with (lines 42-49 and 165-167).
\<close>

definition closureOf :: "state \<Rightarrow> closure" where
  "closureOf st =
     \<lparr>c_isScrollableAlongX = isScrollableAlongX st,
      c_isScrollableAlongY = isScrollableAlongY st,
      c_maxHorizontalScroll = maxHorizontalScroll st,
      c_maxVerticalScroll = maxVerticalScroll st,
      c_cursorStyleOfWrapperElement = cursorStyleOfWrapperElement st,
      c_cursorStyleOfChildElements = cursorStyleOfChildElements st,
      c_transformStyleOfChildElements = transformStyleOfChildElements st,
      c_transitionStyleOfChildElements = transitionStyleOfChildElements st,
      c_rubberBandAnimationTimer = rubberBandAnimationTimer st,
      c_keepMovingX = keepMovingX st,
      c_keepMovingY = keepMovingY st\<rparr>"

definition enter :: "closure \<Rightarrow> state \<Rightarrow> state" where
  "enter c st =
     st\<lparr>isScrollableAlongX := c_isScrollableAlongX c,
        isScrollableAlongY := c_isScrollableAlongY c,
        maxHorizontalScroll := c_maxHorizontalScroll c,
        maxVerticalScroll := c_maxVerticalScroll c,
        cursorStyleOfWrapperElement := c_cursorStyleOfWrapperElement c,
        cursorStyleOfChildElements := c_cursorStyleOfChildElements c,
        transformStyleOfChildElements := c_transformStyleOfChildElements c,
        transitionStyleOfChildElements := c_transitionStyleOfChildElements c,
        rubberBandAnimationTimer := c_rubberBandAnimationTimer c,
        keepMovingX := c_keepMovingX c,
        keepMovingY := c_keepMovingY c\<rparr>"

definition newClosure :: closure where
  "newClosure =
     \<lparr>c_isScrollableAlongX = False, c_isScrollableAlongY = False,
      c_maxHorizontalScroll = 0, c_maxVerticalScroll = 0,
      c_cursorStyleOfWrapperElement = None, c_cursorStyleOfChildElements = None,
      c_transformStyleOfChildElements = None, c_transitionStyleOfChildElements = None,
      c_rubberBandAnimationTimer = None, c_keepMovingX = None, c_keepMovingY = None\<rparr>"

text \<open>
  A render of the host component that passes the value \<open>b\<close> for \<open>isMounted\<close>, the dependency
  of both effects; \<open>listening\<close> holds the value the effects last ran with. When the value is
  the same no effect runs again: the listeners and the timers keep their closure, and the
  new closure is used by \<open>onMouseDown\<close> alone, which reads none of its variables. When the
  value has changed, the cleanup of the previous effect runs, in the closure of that effect
  (the current one); the timers that are still in the pool stay there with that closure;
  and the layout effect and the effect of the new render run in the new closure. (React
  runs the new layout effect before the old cleanup; the two touch different variables.)
\<close>

definition rerender :: "options \<Rightarrow> bool \<Rightarrow> state \<Rightarrow> state" where
  "rerender opts b st =
     (if b = listening st then st
      else
        let st1 = useEffect_cleanup st;
            st2 = st1\<lparr>retired :=
                    retired st1 @ map (\<lambda>p. (fst p, closureOf st1)) (timers st1)\<rparr>;
            st3 = enter newClosure st2
        in useEffect (opts\<lparr>isMounted := b\<rparr>) (useLayoutEffect (opts\<lparr>isMounted := b\<rparr>) st3))"

text \<open>
  The state as the callback of the timer with handle \<open>h\<close> sees it, and the state the
  callback leaves behind: the callback of a timer of a retired closure reads the variables
  of that closure (the timer callbacks assign no closure variable).
\<close>

definition seenBy :: "nat \<Rightarrow> state \<Rightarrow> state" where
  "seenBy h st = (case map_of (retired st) h of None \<Rightarrow> st | Some c \<Rightarrow> enter c st)"

definition leftBy :: "nat \<Rightarrow> state \<Rightarrow> state \<Rightarrow> state" where
  "leftBy h st st' =
     (case map_of (retired st) h of None \<Rightarrow> st' | Some c \<Rightarrow> enter (closureOf st) st')"

text \<open>
  What can happen to a mounted hook: the container's \<open>onMouseDown\<close>, the three window
  events (delivered only while the listeners are registered), a live timer firing, the
  host or the platform changing the container reference or the container's own state
  (\<open>Host\<close>: the element is mounted or unmounted, the user scrolls, the platform clamps a
  scroll offset or recomputes a computed style), and a render with a value for \<open>isMounted\<close>
  (\<open>SetMounted\<close>). A timeout
  leaves the pool when it fires; an interval stays. An exception that escapes a handler is
  reported together with the state it leaves (\<open>Inl\<close>); the hook goes on from that state.
\<close>

datatype event =
    MouseDown nat real real
  | MouseMove real real
  | MouseUp real real
  | Resize
  | Fire nat
  | Host "element option"
  | SetMounted bool

definition dispatch :: "options \<Rightarrow> event \<Rightarrow> state \<Rightarrow> (error \<times> state) + state" where
  "dispatch opts ev st =
     (case ev of
        MouseDown b x y \<Rightarrow> Inr (onMouseDown opts st b x y)
      | MouseMove x y \<Rightarrow> Inr (if listening st then onMouseMove opts st x y else st)
      | MouseUp x y \<Rightarrow> Inr (if listening st then onMouseUp opts st x y else st)
      | Resize \<Rightarrow> Inr (if listening st then handleResize st else st)
      | Fire h \<Rightarrow>
          (case map_of (timers st) h of
             None \<Rightarrow> Inr st
           | Some MomentumX \<Rightarrow> Inr (leftBy h st (keepMovingX_tick opts (seenBy h st)))
           | Some MomentumY \<Rightarrow> Inr (leftBy h st (keepMovingY_tick opts (seenBy h st)))
           | Some SnapBack \<Rightarrow>
               (case recoverChildStyle (seenBy h (clearTimer (Some h) st)) of
                  Inl p \<Rightarrow> Inl (fst p, leftBy h st (snd p))
                | Inr st' \<Rightarrow> Inr (leftBy h st st')))
      | Host r \<Rightarrow> Inr (st\<lparr>ref_current := r\<rparr>)
      | SetMounted b \<Rightarrow> Inr (rerender opts b st))"

text \<open>
  The state in which an event, or a sequence of events, leaves the hook, and a sequence of
  events: \<open>Inr\<close> when no handler raised an exception, \<open>Inl\<close> with the first exception
  otherwise, in both cases with the state after the last event.
\<close>

definition finalState :: "(error \<times> state) + state \<Rightarrow> state" where
  "finalState r = (case r of Inl p \<Rightarrow> snd p | Inr st \<Rightarrow> st)"

fun run :: "options \<Rightarrow> event list \<Rightarrow> state \<Rightarrow> (error \<times> state) + state" where
  "run opts [] st = Inr st"
| "run opts (ev # evs) st =
     (case dispatch opts ev st of
        Inl p \<Rightarrow> Inl (fst p, finalState (run opts evs (snd p)))
      | Inr st' \<Rightarrow> run opts evs st')"

section \<open>The momentum loop of one interval\<close>

text \<open>
  The interval with handle \<open>h\<close> runs its callback on every tick for as long as the handle
  is in the pool. \<open>momentumLoop opts h n st\<close> runs it with fuel \<open>n\<close>: \<open>Some\<close> of the state in
  which the interval is gone, \<open>None\<close> when the interval is still live after \<open>n\<close> ticks.
  \<open>ticks opts h n st\<close> is the state after \<open>n\<close> firings of the handle.
\<close>

definition liveInterval :: "state \<Rightarrow> nat \<Rightarrow> bool" where
  "liveInterval st h =
     (map_of (timers st) h = Some MomentumX \<or> map_of (timers st) h = Some MomentumY)"

definition tick :: "options \<Rightarrow> nat \<Rightarrow> state \<Rightarrow> state" where
  "tick opts h st =
     (case map_of (timers st) h of
        None \<Rightarrow> st
      | Some MomentumX \<Rightarrow> leftBy h st (keepMovingX_tick opts (seenBy h st))
      | Some MomentumY \<Rightarrow> leftBy h st (keepMovingY_tick opts (seenBy h st))
      | Some SnapBack \<Rightarrow> st)"

fun ticks :: "options \<Rightarrow> nat \<Rightarrow> nat \<Rightarrow> state \<Rightarrow> state" where
  "ticks opts h 0 st = st"
| "ticks opts h (Suc n) st = ticks opts h n (tick opts h st)"

fun momentumLoop :: "options \<Rightarrow> nat \<Rightarrow> nat \<Rightarrow> state \<Rightarrow> state option" where
  "momentumLoop opts h 0 st = (if liveInterval st h then None else Some st)"
| "momentumLoop opts h (Suc n) st =
     (if liveInterval st h then momentumLoop opts h n (tick opts h st) else Some st)"

text \<open>
  The loop of an axis is running under handle \<open>h\<close> when the container is present, the
  axis's variable in the current closure holds \<open>h\<close> and \<open>h\<close> is a live interval of that
  axis: the state in which \<open>callbackMomentum\<close> leaves the interval it has just created.
  \<open>stopsX\<close> and \<open>stopsY\<close> are the conditions under which the tick of the axis clears the
  interval.
\<close>

definition runningX :: "state \<Rightarrow> nat \<Rightarrow> bool" where
  "runningX st h =
     (ref_current st \<noteq> None \<and> keepMovingX st = Some h \<and>
      map_of (timers st) h = Some MomentumX \<and> map_of (retired st) h = None)"

definition runningY :: "state \<Rightarrow> nat \<Rightarrow> bool" where
  "runningY st h =
     (ref_current st \<noteq> None \<and> keepMovingY st = Some h \<and>
      map_of (timers st) h = Some MomentumY \<and> map_of (retired st) h = None)"

definition stopsX :: "options \<Rightarrow> state \<Rightarrow> element \<Rightarrow> bool" where
  "stopsX opts st el =
     (\<bar>scrollSpeedX st * decayRate opts\<bar> < 0.05 \<or> isMouseDown st \<or>
      scrollLeft el \<le> 0 \<or> scrollLeft el \<ge> maxHorizontalScroll st)"

definition stopsY :: "options \<Rightarrow> state \<Rightarrow> element \<Rightarrow> bool" where
  "stopsY opts st el =
     (\<bar>scrollSpeedY st * decayRate opts\<bar> < 0.05 \<or> isMouseDown st \<or>
      scrollTop el \<le> 0 \<or> scrollTop el \<ge> maxVerticalScroll st)"

text \<open>
  What can come between the ticks of a loop without touching it from outside: timers
  firing (the ticks of the other axis and the snap-back timeout among them) and resizes.
  A loop glides when it is running, it is the only live interval of its axis, the variable
  of the other axis does not hold its handle, and no timer of an earlier closure is left.
\<close>

definition besideLoop :: "event \<Rightarrow> bool" where
  "besideLoop ev = (case ev of Fire h \<Rightarrow> True | Resize \<Rightarrow> True | _ \<Rightarrow> False)"

definition glidingX :: "state \<Rightarrow> nat \<Rightarrow> bool" where
  "glidingX st h =
     (runningX st h \<and> keepMovingY st \<noteq> Some h \<and> retired st = [] \<and>
      (\<forall>p \<in> set (timers st). snd p = MomentumX \<longrightarrow> fst p = h))"

definition glidingY :: "state \<Rightarrow> nat \<Rightarrow> bool" where
  "glidingY st h =
     (runningY st h \<and> keepMovingX st \<noteq> Some h \<and> retired st = [] \<and>
      (\<forall>p \<in> set (timers st). snd p = MomentumY \<longrightarrow> fst p = h))"

section \<open>The invariant of the timers and speeds\<close>

text \<open>
  The part of the state the invariant speaks about, and the invariant: timer handles are
  distinct and below the next handle, the handle in \<open>keepMovingX\<close> (\<open>keepMovingY\<close>) names an
  interval of its own axis if it names a live timer at all, a speed is non-zero only if
  the axis's dragging flag is set or an interval of the axis is live, and no timer of an
  earlier closure is left. \<open>keepsEffects\<close> holds of the events that re-run no effect.
\<close>

type_synonym view =
  "(nat \<times> timer) list \<times> nat \<times> nat option \<times> nat option \<times> real \<times> real \<times> bool \<times> bool"

definition view :: "state \<Rightarrow> view" where
  "view st =
     (timers st, nextTimer st, keepMovingX st, keepMovingY st,
      scrollSpeedX st, scrollSpeedY st, isDraggingX st, isDraggingY st)"

fun wfv :: "view \<Rightarrow> bool" where
  "wfv (ts, n, kx, ky, sx, sy, dx, dy) =
     (distinct (map fst ts) \<and>
      (\<forall>p \<in> set ts. fst p < n) \<and>
      (\<forall>p \<in> set ts. kx = Some (fst p) \<longrightarrow> snd p = MomentumX) \<and>
      (\<forall>p \<in> set ts. ky = Some (fst p) \<longrightarrow> snd p = MomentumY) \<and>
      (sx = 0 \<or> dx \<or> MomentumX \<in> snd ` set ts) \<and>
      (sy = 0 \<or> dy \<or> MomentumY \<in> snd ` set ts))"

definition keepsEffects :: "event \<Rightarrow> bool" where
  "keepsEffects ev = (case ev of SetMounted b \<Rightarrow> False | _ \<Rightarrow> True)"

definition wf :: "state \<Rightarrow> bool" where
  "wf st = (wfv (view st) \<and> retired st = [])"

section \<open>The phases of a gliding loop\<close>

text \<open>
  The two phases of a gliding loop, on the fields of \<open>view\<close>: the loop is live with a given
  speed, or it has ended, with no interval of its axis left and the speed at 0. \<open>phaseX\<close>
  and \<open>phaseY\<close> say in which phase the loop is after \<open>n\<close> ticks of its own from speed \<open>s\<close>.
\<close>

fun glideXv :: "nat \<Rightarrow> real \<Rightarrow> view \<Rightarrow> bool" where
  "glideXv h sp (ts, n, kx, ky, sx, sy, dx, dy) =
     (kx = Some h \<and> ky \<noteq> Some h \<and> map_of ts h = Some MomentumX \<and>
      (\<forall>p \<in> set ts. snd p = MomentumX \<longrightarrow> fst p = h) \<and> sx = sp)"

fun endedXv :: "nat \<Rightarrow> view \<Rightarrow> bool" where
  "endedXv h (ts, n, kx, ky, sx, sy, dx, dy) =
     (map_of ts h = None \<and> (\<forall>p \<in> set ts. snd p \<noteq> MomentumX) \<and> sx = 0)"

fun glideYv :: "nat \<Rightarrow> real \<Rightarrow> view \<Rightarrow> bool" where
  "glideYv h sp (ts, n, kx, ky, sx, sy, dx, dy) =
     (ky = Some h \<and> kx \<noteq> Some h \<and> map_of ts h = Some MomentumY \<and>
      (\<forall>p \<in> set ts. snd p = MomentumY \<longrightarrow> fst p = h) \<and> sy = sp)"

fun endedYv :: "nat \<Rightarrow> view \<Rightarrow> bool" where
  "endedYv h (ts, n, kx, ky, sx, sy, dx, dy) =
     (map_of ts h = None \<and> (\<forall>p \<in> set ts. snd p \<noteq> MomentumY) \<and> sy = 0)"

definition phaseX :: "options \<Rightarrow> nat \<Rightarrow> real \<Rightarrow> nat \<Rightarrow> state \<Rightarrow> bool" where
  "phaseX opts h s n st =
     (retired st = [] \<and>
      (ref_current st \<noteq> None \<and> glideXv h (s * decayRate opts ^ n) (view st) \<and>
       (n = 0 \<or> \<not> \<bar>s * decayRate opts ^ n\<bar> < 0.05) \<or>
       endedXv h (view st)))"

definition phaseY :: "options \<Rightarrow> nat \<Rightarrow> real \<Rightarrow> nat \<Rightarrow> state \<Rightarrow> bool" where
  "phaseY opts h s n st =
     (retired st = [] \<and>
      (ref_current st \<noteq> None \<and> glideYv h (s * decayRate opts ^ n) (view st) \<and>
       (n = 0 \<or> \<not> \<bar>s * decayRate opts ^ n\<bar> < 0.05) \<or>
       endedYv h (view st)))"

section \<open>The invariant of the style snapshot\<close>

text \<open>
  What the hook never changes in a child and the restoring loops depend on (\<open>shape\<close>:
  whether the child is an HTMLElement, and the inline cursor of a child that is not), the
  part of the state the snapshot invariant speaks about, and the invariant: the snapshot
  variables hold what the layout effect read from the container \<open>el\<close>, the window listeners
  are registered, no timer of an earlier closure is left, and the container reference holds
  an element whose children have, position for position, the shape of those of \<open>el\<close>.
\<close>

definition nonHtmlCursor :: "child \<Rightarrow> css option" where
  "nonHtmlCursor c = (if isHTMLElement c then None else Some (styleCursor c))"

definition shape :: "child \<Rightarrow> bool \<times> css option" where
  "shape c = (isHTMLElement c, nonHtmlCursor c)"

text \<open>
  An event keeps the snapshot when it is neither a render with a value for \<open>isMounted\<close> nor
  a change by the host or the platform, or when that change leaves a container with
  children of the shape of those of \<open>el\<close> in place (the user scrolls, the platform clamps an
  offset or recomputes a computed style, the host re-renders the same nodes).
\<close>

definition keepsSnapshot :: "element \<Rightarrow> event \<Rightarrow> bool" where
  "keepsSnapshot el ev =
     (case ev of
        Host r \<Rightarrow>
          (case r of
             None \<Rightarrow> False
           | Some e \<Rightarrow> map shape (childNodes e) = map shape (childNodes el))
      | SetMounted b \<Rightarrow> False
      | _ \<Rightarrow> True)"

definition sview ::
  "state \<Rightarrow> string option \<times> string list option \<times> string list option \<times> string list option \<times>
     bool \<times> (nat \<times> closure) list \<times> (bool \<times> css option) list option" where
  "sview st =
     (cursorStyleOfWrapperElement st, cursorStyleOfChildElements st,
      transformStyleOfChildElements st, transitionStyleOfChildElements st, listening st,
      retired st, map_option (\<lambda>e. map shape (childNodes e)) (ref_current st))"

definition snapshotOf :: "element \<Rightarrow> state \<Rightarrow> bool" where
  "snapshotOf el st =
     (sview st =
        (Some (elComputedCursor el), Some (map computedCursor (childNodes el)),
         Some (map (\<lambda>c. noneToEmpty (computedTransform c)) (childNodes el)),
         Some (map (\<lambda>c. noneToEmpty (computedTransition c)) (childNodes el)),
         True, [], Some (map shape (childNodes el))))"

section \<open>The statements of the specification that are compared with the code\<close>

text \<open>
  The specification's edge test \<open>isAtEdge(axis)\<close>: the axis is scrollable and the offset is
  at most 0 or at least the maximum. The specification's stopping condition of a momentum
  tick uses it.
\<close>

definition isAtEdge_spec :: "bool \<Rightarrow> real \<Rightarrow> real \<Rightarrow> bool" where
  "isAtEdge_spec scrollable offset maxScroll =
     (scrollable \<and> (offset \<le> 0 \<or> offset \<ge> maxScroll))"

definition stops_spec :: "real \<Rightarrow> bool \<Rightarrow> bool \<Rightarrow> real \<Rightarrow> real \<Rightarrow> bool" where
  "stops_spec newSpeed pointerDown scrollable offset maxScroll =
     (\<bar>newSpeed\<bar> < 0.05 \<or> pointerDown \<or> isAtEdge_spec scrollable offset maxScroll)"

text \<open>
  The specification's rubber-band displacement of one axis, evaluated as JavaScript
  evaluates it (a visible extent of 0 gives \<open>NaN\<close>).
\<close>

definition displacement_spec :: "bool \<Rightarrow> nat \<Rightarrow> real \<Rightarrow> jsnum" where
  "displacement_spec scrollable extent delta =
     (if scrollable then
        (if extent = 0 then NaN
         else Num (0.3 * real extent * sgn delta * log 10 (1 + 0.5 * \<bar>delta\<bar> / real extent)))
      else Num 0)"

text \<open>
  What the snapshot holds of a child's transform and transition, and what the child's
  inline style holds, for the children that are HTMLElements (\<open>None\<close> for the others).
\<close>

definition capturedTransform :: "child \<Rightarrow> (css \<times> css) option" where
  "capturedTransform c =
     (if isHTMLElement c
      then Some (Css (noneToEmpty (computedTransform c)), Css (noneToEmpty (computedTransition c)))
      else None)"

definition inlineTransform :: "child \<Rightarrow> (css \<times> css) option" where
  "inlineTransform c =
     (if isHTMLElement c then Some (styleTransform c, styleTransition c) else None)"

text \<open>
  The inline cursor that a child is to have after a pointer-up, given the child as it was at
  mount: the computed cursor that was captured, for a child that is an HTMLElement; the
  inline cursor it had at mount, for a child that is not (the hook never writes it).
\<close>

definition cursorAtMount :: "child \<Rightarrow> css" where
  "cursorAtMount c = (if isHTMLElement c then Css (computedCursor c) else styleCursor c)"

section \<open>Example containers\<close>

definition div_child :: child where
  "div_child =
     \<lparr>isHTMLElement = True, computedCursor = ''auto'', computedTransform = ''none'',
      computedTransition = ''all 0s ease 0s'', styleCursor = Css [],
      styleTransform = Css [], styleTransition = Css [], clickListener = False\<rparr>"

definition rotated_child :: child where
  "rotated_child =
     div_child\<lparr>computedCursor := ''pointer'', computedTransform := ''matrix(0, 1, -1, 0, 0, 0)''\<rparr>"

definition svg_child :: child where
  "svg_child = div_child\<lparr>isHTMLElement := False\<rparr>"

text \<open>
  A container 100 wide with content 300 wide, scrolled to offset 150, whose horizontal
  overflow is \<open>scroll\<close>.
\<close>

definition scroll_box :: element where
  "scroll_box =
     \<lparr>scrollLeft = 150, scrollTop = 0, scrollWidth = 300, clientWidth = 100,
      scrollHeight = 50, clientHeight = 50, overflowX = ''scroll'', overflowY = ''hidden'',
      elComputedCursor = ''default'', elStyleCursor = Css [],
      childNodes = [div_child, rotated_child]\<rparr>"

text \<open>The same container with \<open>overflow-x: auto\<close>, which the hook does not count as scrollable.\<close>

definition auto_box :: element where
  "auto_box = scroll_box\<lparr>overflowX := ''auto''\<rparr>"

text \<open>The same container with an SVG element as its second child.\<close>

definition svg_box :: element where
  "svg_box = scroll_box\<lparr>childNodes := [div_child, svg_child]\<rparr>"

text \<open>
  The same container with three children, the last one an SVG element that has a cursor of
  its own.
\<close>

definition crosshair_svg_child :: child where
  "crosshair_svg_child =
     svg_child\<lparr>computedCursor := ''crosshair'', styleCursor := Css ''crosshair''\<rparr>"

definition mixed_box :: element where
  "mixed_box = scroll_box\<lparr>childNodes := [div_child, rotated_child, crosshair_svg_child]\<rparr>"

text \<open>The two containers scrolled to the left edge.\<close>

definition edge_box :: element where
  "edge_box = scroll_box\<lparr>scrollLeft := 0\<rparr>"

definition svg_edge_box :: element where
  "svg_edge_box = svg_box\<lparr>scrollLeft := 0\<rparr>"

definition rubber_options :: options where
  "rubber_options = default_options\<lparr>applyRubberBandEffect := True\<rparr>"

text \<open>
  A state in the middle of a glide: the container of \<open>scroll_box\<close> with horizontal speed 2,
  both intervals live.
\<close>

definition gliding :: state where
  "gliding =
     (initial_state (Some scroll_box))\<lparr>scrollSpeedX := 2, maxHorizontalScroll := 200,
        keepMovingX := Some 1,
        keepMovingY := Some 2, timers := [(1, MomentumX), (2, MomentumY)], nextTimer := 3\<rparr>"

text \<open>
  Event sequences on the example containers: the container unmounted in the middle of a
  drag, and during the glide that follows a drag of 10; that drag and its release; a
  second drag of 10 released before the glide of the first has ticked; a drag of 50 to the
  right edge of the \<open>auto\<close> container and its release; the full rubber-band interaction on
  the container with an SVG child; a press, a move of 3 and the release, on \<open>scroll_box\<close>
  and on a container that was not there yet when the hook was mounted; a resize after the
  overflow style changed from \<open>auto\<close> to \<open>scroll\<close>; a glide of one tick of each axis; a
  glide during which \<open>isMounted\<close> goes to false and back to true; and a snap-back timeout
  on a container that was not there yet when the hook was mounted, followed by a tick of
  the vertical axis.
\<close>

definition unmounted_mid_drag :: "(error \<times> state) + state" where
  "unmounted_mid_drag =
     run default_options [MouseDown 1 100 0, MouseMove 50 0, Host None]
       (mount default_options (Some scroll_box))"

definition detached_glide :: "(error \<times> state) + state" where
  "detached_glide =
     run default_options [MouseDown 1 100 0, MouseMove 90 0, MouseUp 80 0, Host None]
       (mount default_options (Some scroll_box))"

definition released_glide :: "(error \<times> state) + state" where
  "released_glide =
     run default_options [MouseDown 1 100 0, MouseMove 90 0, MouseUp 80 0]
       (mount default_options (Some scroll_box))"

definition released_at_right_edge :: "(error \<times> state) + state" where
  "released_at_right_edge =
     run default_options [MouseDown 1 100 0, MouseMove 50 0, MouseUp 50 0]
       (mount default_options (Some auto_box))"

definition snapped_back_svg :: "(error \<times> state) + state" where
  "snapped_back_svg =
     run rubber_options [MouseDown 1 100 0, MouseMove 150 0, MouseUp 150 0, Fire 3]
       (mount rubber_options (Some svg_edge_box))"

definition overtaken_glide :: "(error \<times> state) + state" where
  "overtaken_glide =
     run default_options
       [MouseDown 1 100 0, MouseMove 90 0, MouseUp 80 0,
        MouseDown 1 100 0, MouseMove 90 0, MouseUp 80 0]
       (mount default_options (Some scroll_box))"

definition uncaptured_click :: "(error \<times> state) + state" where
  "uncaptured_click =
     run default_options
       [Host (Some scroll_box), MouseDown 1 100 0, MouseMove 97 0, MouseUp 97 0]
       (mount default_options None)"




definition resized_after_overflow_change :: "(error \<times> state) + state" where
  "resized_after_overflow_change =
     run default_options [Host (Some scroll_box), Resize]
       (mount default_options (Some auto_box))"


lemmas example_defs =
  div_child_def rotated_child_def svg_child_def scroll_box_def auto_box_def svg_box_def
  crosshair_svg_child_def mixed_box_def
  edge_box_def svg_edge_box_def rubber_options_def default_options_def initial_state_def

lemmas handler_defs =
  mount_def useEffect_def useLayoutEffect_def dispatch_def onMouseDown_def onMouseMove_def
  onMouseUp_def getIsMousePressActive_def isDraggingConfirmed_def isAtAnEdge_def
  runScroll_def timing_def restoreChildCursor_def optCss_def arrayGet_def
  callbackMomentum_def setTimer_def clearTimer_def keepMovingX_tick_def keepMovingY_tick_def
  minimumSpeedToTriggerMomentum_def rubberBandCallback_def rubberBandDisplacement_def
  recoverChildStyle_def handleResize_def noneToEmpty_def enumerate_eq_zip Let_def
  seenBy_def leftBy_def rerender_def useEffect_cleanup_def closureOf_def enter_def
  newClosure_def finalState_def

section \<open>Facts about the handlers\<close>

subsection \<open>Closures\<close>

text \<open>
  Shared facts: a callback that changes nothing leaves the state as it was, in whatever
  closure it runs; the callback sees the container reference of the state; a timer that is
  not retired runs in the current closure; and a render that passes the value \<open>isMounted\<close>
  already has changes nothing.
\<close>

lemma leftBy_seenBy [simp]: "leftBy h st (seenBy h st) = st"
  by (simp add: leftBy_def seenBy_def enter_def closureOf_def split: option.splits)

lemma ref_current_seenBy [simp]: "ref_current (seenBy h st) = ref_current st"
  by (simp add: seenBy_def enter_def split: option.splits)

lemma current_closure [simp]:
  "map_of (retired st) h = None \<Longrightarrow> seenBy h st = st"
  "map_of (retired st) h = None \<Longrightarrow> leftBy h st st' = st'"
  by (simp_all add: seenBy_def leftBy_def)

lemma no_retired [simp]:
  "retired st = [] \<Longrightarrow> seenBy h st = st"
  "retired st = [] \<Longrightarrow> leftBy h st st' = st'"
  by (simp_all add: seenBy_def leftBy_def)

lemma rerender_same: "rerender opts (listening st) st = st"
  by (simp add: rerender_def)

text \<open>The callbacks of the timers assign no variable of their closure.\<close>

lemma timer_callbacks_keep_closure:
  "closureOf (keepMovingX_tick opts st) = closureOf st"
  "closureOf (keepMovingY_tick opts st) = closureOf st"
  "closureOf (finalState (recoverChildStyle st)) = closureOf st"
  by (simp_all add: closureOf_def keepMovingX_tick_def keepMovingY_tick_def runScroll_def
      clearTimer_def recoverChildStyle_def finalState_def Let_def
      split: option.splits sum.splits)

subsection \<open>Ticks without a container, and the cleanup\<close>

text \<open>
  Shared facts: a tick of either axis without a container is the identity, and the cleanup
  of \<open>useEffect\<close> removes the intervals that \<open>keepMovingX\<close> and \<open>keepMovingY\<close> name.
\<close>

lemma tick_absent: "ref_current st = None \<Longrightarrow> tick opts h st = st"
  by (simp add: tick_def keepMovingX_tick_def keepMovingY_tick_def
      split: option.splits timer.splits)

lemma ticks_absent: "ref_current st = None \<Longrightarrow> ticks opts h n st = st"
  by (induction n) (simp_all add: tick_absent)

lemma momentumLoop_absent:
  "ref_current st = None \<Longrightarrow> liveInterval st h \<Longrightarrow> momentumLoop opts h n st = None"
  by (induction n) (simp_all add: tick_absent)

lemma map_of_filter_fst: "map_of (filter (\<lambda>p. fst p \<noteq> h) xs) h = None"
  by (induction xs) auto

lemma cleanup_clears:
  "keepMovingX st = Some h \<or> keepMovingY st = Some h \<Longrightarrow>
   map_of (timers (useEffect_cleanup st)) h = None"
  by (auto simp add: useEffect_cleanup_def clearTimer_def Let_def map_of_eq_None_iff
      split: option.splits)

subsection \<open>Click listeners\<close>

text \<open>
  Shared facts: restoring the cursors, and the snap-back styles, leave the click listeners
  as \<open>onMouseUp\<close> has just set them.
\<close>

lemma clickListener_restoreChildCursor [simp]:
  "clickListener (restoreChildCursor cur p) = clickListener (snd p)"
  by (simp add: restoreChildCursor_def split: option.splits)

lemma clickListener_after_up:
  "map (clickListener \<circ> restoreChildCursor cur)
     (enumerate n (map (clickListener_update (\<lambda>_. b)) cs)) =
   replicate (length cs) b"
  by (induction cs arbitrary: n) simp_all

lemma clickListener_after_snap:
  "map (clickListener \<circ>
        ((\<lambda>c. c\<lparr>styleTransform := t, styleTransition := u\<rparr>) \<circ> restoreChildCursor cur))
     (enumerate n (map (clickListener_update (\<lambda>_. b)) cs)) =
   replicate (length cs) b"
  by (induction cs arbitrary: n) simp_all

subsection \<open>One tick of a running loop\<close>

text \<open>
  Shared facts about one tick: what it does to the fields the loop depends on, and that it
  either leaves the loop running with the decayed speed or ends it with speed 0.
\<close>

lemma tick_dead: "\<not> liveInterval st h \<Longrightarrow> tick opts h st = st"
  by (auto simp add: liveInterval_def tick_def split: option.splits timer.splits)

lemma ticks_dead: "\<not> liveInterval st h \<Longrightarrow> ticks opts h n st = st"
  by (induction n) (simp_all add: tick_dead)

lemma keepMovingX_tick_fields:
  assumes "ref_current st = Some el"
  shows "ref_current (keepMovingX_tick opts st) \<noteq> None"
    and "keepMovingX (keepMovingX_tick opts st) = keepMovingX st"
    and "timers (keepMovingX_tick opts st) =
           (if stopsX opts st el then timers (clearTimer (keepMovingX st) st) else timers st)"
    and "scrollSpeedX (keepMovingX_tick opts st) =
           (if stopsX opts st el then 0 else scrollSpeedX st * decayRate opts)"
  using assms
  by (simp_all add: keepMovingX_tick_def runScroll_def clearTimer_def stopsX_def
      minimumSpeedToTriggerMomentum_def Let_def split: option.splits)

lemma keepMovingY_tick_fields:
  assumes "ref_current st = Some el"
  shows "ref_current (keepMovingY_tick opts st) \<noteq> None"
    and "keepMovingY (keepMovingY_tick opts st) = keepMovingY st"
    and "timers (keepMovingY_tick opts st) =
           (if stopsY opts st el then timers (clearTimer (keepMovingY st) st) else timers st)"
    and "scrollSpeedY (keepMovingY_tick opts st) =
           (if stopsY opts st el then 0 else scrollSpeedY st * decayRate opts)"
  using assms
  by (simp_all add: keepMovingY_tick_def runScroll_def clearTimer_def stopsY_def
      minimumSpeedToTriggerMomentum_def Let_def split: option.splits)

lemma tickX_cases:
  assumes "runningX st h"
  shows "(runningX (tick opts h st) h \<and>
          scrollSpeedX (tick opts h st) = scrollSpeedX st * decayRate opts \<and>
          \<not> \<bar>scrollSpeedX st * decayRate opts\<bar> < 0.05) \<or>
         (\<not> liveInterval (tick opts h st) h \<and> scrollSpeedX (tick opts h st) = 0)"
proof -
  from assms obtain el where el: "ref_current st = Some el"
    and k: "keepMovingX st = Some h" and m: "map_of (timers st) h = Some MomentumX"
    and r: "map_of (retired st) h = None"
    by (auto simp add: runningX_def)
  have t: "tick opts h st = keepMovingX_tick opts st"
    using m r by (simp add: tick_def)
  show ?thesis
  proof (cases "stopsX opts st el")
    case True
    then show ?thesis
      using keepMovingX_tick_fields [OF el, of opts] k t
      by (simp add: liveInterval_def clearTimer_def map_of_filter_fst)
  next
    case False
    have "retired (keepMovingX_tick opts st) = retired st"
      by (simp add: keepMovingX_tick_def runScroll_def clearTimer_def Let_def
          split: option.splits)
    with False show ?thesis
      using keepMovingX_tick_fields [OF el, of opts] k m r t
      by (simp add: runningX_def stopsX_def)
  qed
qed

lemma tickY_cases:
  assumes "runningY st h"
  shows "(runningY (tick opts h st) h \<and>
          scrollSpeedY (tick opts h st) = scrollSpeedY st * decayRate opts \<and>
          \<not> \<bar>scrollSpeedY st * decayRate opts\<bar> < 0.05) \<or>
         (\<not> liveInterval (tick opts h st) h \<and> scrollSpeedY (tick opts h st) = 0)"
proof -
  from assms obtain el where el: "ref_current st = Some el"
    and k: "keepMovingY st = Some h" and m: "map_of (timers st) h = Some MomentumY"
    and r: "map_of (retired st) h = None"
    by (auto simp add: runningY_def)
  have t: "tick opts h st = keepMovingY_tick opts st"
    using m r by (simp add: tick_def)
  show ?thesis
  proof (cases "stopsY opts st el")
    case True
    then show ?thesis
      using keepMovingY_tick_fields [OF el, of opts] k t
      by (simp add: liveInterval_def clearTimer_def map_of_filter_fst)
  next
    case False
    have "retired (keepMovingY_tick opts st) = retired st"
      by (simp add: keepMovingY_tick_def runScroll_def clearTimer_def Let_def
          split: option.splits)
    with False show ?thesis
      using keepMovingY_tick_fields [OF el, of opts] k m r t
      by (simp add: runningY_def stopsY_def)
  qed
qed

lemma runningX_live: "runningX st h \<Longrightarrow> liveInterval st h"
  by (simp add: runningX_def liveInterval_def)

lemma runningY_live: "runningY st h \<Longrightarrow> liveInterval st h"
  by (simp add: runningY_def liveInterval_def)

lemma ticksX_speed:
  "runningX st h \<Longrightarrow> liveInterval (ticks opts h n st) h \<Longrightarrow>
   scrollSpeedX (ticks opts h n st) = scrollSpeedX st * decayRate opts ^ n"
proof (induction n arbitrary: st)
  case 0
  then show ?case by simp
next
  case (Suc n)
  from tickX_cases [OF Suc.prems(1), of opts]
  show ?case
  proof
    assume a: "runningX (tick opts h st) h \<and>
          scrollSpeedX (tick opts h st) = scrollSpeedX st * decayRate opts \<and>
          \<not> \<bar>scrollSpeedX st * decayRate opts\<bar> < 0.05"
    with Suc.IH [of "tick opts h st"] Suc.prems(2) show ?thesis
      by (simp add: mult.assoc)
  next
    assume b: "\<not> liveInterval (tick opts h st) h \<and> scrollSpeedX (tick opts h st) = 0"
    with Suc.prems(2) show ?thesis by (simp add: ticks_dead)
  qed
qed

lemma ticksY_speed:
  "runningY st h \<Longrightarrow> liveInterval (ticks opts h n st) h \<Longrightarrow>
   scrollSpeedY (ticks opts h n st) = scrollSpeedY st * decayRate opts ^ n"
proof (induction n arbitrary: st)
  case 0
  then show ?case by simp
next
  case (Suc n)
  from tickY_cases [OF Suc.prems(1), of opts]
  show ?case
  proof
    assume a: "runningY (tick opts h st) h \<and>
          scrollSpeedY (tick opts h st) = scrollSpeedY st * decayRate opts \<and>
          \<not> \<bar>scrollSpeedY st * decayRate opts\<bar> < 0.05"
    with Suc.IH [of "tick opts h st"] Suc.prems(2) show ?thesis
      by (simp add: mult.assoc)
  next
    assume b: "\<not> liveInterval (tick opts h st) h \<and> scrollSpeedY (tick opts h st) = 0"
    with Suc.prems(2) show ?thesis by (simp add: ticks_dead)
  qed
qed

lemma loopX_ends:
  "0 < decayRate opts \<Longrightarrow> decayRate opts < 1 \<Longrightarrow> runningX st h \<Longrightarrow>
   \<bar>scrollSpeedX st\<bar> * decayRate opts ^ n < 0.05 \<Longrightarrow>
   \<exists>st'. momentumLoop opts h (Suc n) st = Some st' \<and> scrollSpeedX st' = 0 \<and>
         \<not> liveInterval st' h"
proof (induction n arbitrary: st)
  case 0
  have "\<bar>scrollSpeedX st * decayRate opts\<bar> \<le> \<bar>scrollSpeedX st\<bar>"
    using 0(1,2) by (simp add: abs_mult mult_left_le)
  with 0(4) have "\<bar>scrollSpeedX st * decayRate opts\<bar> < 0.05" by simp
  with tickX_cases [OF 0(3), of opts] runningX_live [OF 0(3)] show ?case by auto
next
  case (Suc n)
  from tickX_cases [OF Suc.prems(3), of opts]
  show ?case
  proof
    assume a: "runningX (tick opts h st) h \<and>
          scrollSpeedX (tick opts h st) = scrollSpeedX st * decayRate opts \<and>
          \<not> \<bar>scrollSpeedX st * decayRate opts\<bar> < 0.05"
    have "\<bar>scrollSpeedX (tick opts h st)\<bar> * decayRate opts ^ n < 0.05"
      using a Suc.prems(1,4) by (simp add: abs_mult mult.assoc)
    from Suc.IH [OF Suc.prems(1,2) _ this] a runningX_live [OF Suc.prems(3)]
    show ?thesis by simp
  next
    assume b: "\<not> liveInterval (tick opts h st) h \<and> scrollSpeedX (tick opts h st) = 0"
    with runningX_live [OF Suc.prems(3)] show ?thesis by simp
  qed
qed

lemma loopY_ends:
  "0 < decayRate opts \<Longrightarrow> decayRate opts < 1 \<Longrightarrow> runningY st h \<Longrightarrow>
   \<bar>scrollSpeedY st\<bar> * decayRate opts ^ n < 0.05 \<Longrightarrow>
   \<exists>st'. momentumLoop opts h (Suc n) st = Some st' \<and> scrollSpeedY st' = 0 \<and>
         \<not> liveInterval st' h"
proof (induction n arbitrary: st)
  case 0
  have "\<bar>scrollSpeedY st * decayRate opts\<bar> \<le> \<bar>scrollSpeedY st\<bar>"
    using 0(1,2) by (simp add: abs_mult mult_left_le)
  with 0(4) have "\<bar>scrollSpeedY st * decayRate opts\<bar> < 0.05" by simp
  with tickY_cases [OF 0(3), of opts] runningY_live [OF 0(3)] show ?case by auto
next
  case (Suc n)
  from tickY_cases [OF Suc.prems(3), of opts]
  show ?case
  proof
    assume a: "runningY (tick opts h st) h \<and>
          scrollSpeedY (tick opts h st) = scrollSpeedY st * decayRate opts \<and>
          \<not> \<bar>scrollSpeedY st * decayRate opts\<bar> < 0.05"
    have "\<bar>scrollSpeedY (tick opts h st)\<bar> * decayRate opts ^ n < 0.05"
      using a Suc.prems(1,4) by (simp add: abs_mult mult.assoc)
    from Suc.IH [OF Suc.prems(1,2) _ this] a runningY_live [OF Suc.prems(3)]
    show ?thesis by simp
  next
    assume b: "\<not> liveInterval (tick opts h st) h \<and> scrollSpeedY (tick opts h st) = 0"
    with runningY_live [OF Suc.prems(3)] show ?thesis by simp
  qed
qed

lemma decay_reaches_threshold:
  fixes s r :: real
  assumes "0 < r" "r < 1"
  shows "\<exists>n. \<bar>s\<bar> * r ^ n < 0.05"
proof (cases "s = 0")
  case True
  then show ?thesis by simp
next
  case False
  then have "0 < 0.05 / \<bar>s\<bar>" by simp
  from real_arch_pow_inv [OF this assms(2)] obtain n where "r ^ n < 0.05 / \<bar>s\<bar>" ..
  with False have "\<bar>s\<bar> * r ^ n < 0.05"
    by (simp add: field_simps)
  then show ?thesis ..
qed

subsection \<open>The timers and speeds invariant\<close>

text \<open>
  Shared facts: what each handler does to the fields of the invariant, and that every event
  that re-runs no effect preserves the invariant, whether or not its handler raises an
  exception.
\<close>

lemma view_runScroll [simp]: "view (runScroll st) = view st"
  by (simp add: view_def runScroll_def Let_def split: option.splits)

lemma view_rubberBandCallback [simp]: "view (rubberBandCallback st x y) = view st"
  by (simp add: view_def rubberBandCallback_def Let_def split: option.splits)

lemma view_onMouseDown [simp]: "view (onMouseDown opts st b x y) = view st"
  by (simp add: view_def onMouseDown_def split: option.splits)

lemma view_handleResize [simp]: "view (handleResize st) = view st"
  by (simp add: view_def handleResize_def split: option.splits)

lemma view_host [simp]: "view (st\<lparr>ref_current := r\<rparr>) = view st"
  by (simp add: view_def)

lemma view_recoverChildStyle [simp]: "view (finalState (recoverChildStyle st)) = view st"
  by (simp add: view_def recoverChildStyle_def finalState_def split: option.splits sum.splits)

lemma view_onMouseMove:
  "view (onMouseMove opts st x y) =
     (if isMouseDown st \<and> ref_current st \<noteq> None
      then (timers st, nextTimer st, keepMovingX st, keepMovingY st,
            (lastMouseX st - x) / timing, (lastMouseY st - y) / timing, True, True)
      else view st)"
proof (cases "isMouseDown st \<and> ref_current st \<noteq> None")
  case True
  then obtain el where "ref_current st = Some el" by auto
  with True show ?thesis
    by (simp add: onMouseMove_def Let_def) (simp add: view_def)
next
  case False
  then show ?thesis
    by (auto simp add: onMouseMove_def split: option.splits)
qed


lemma view_callbackMomentum:
  "view (callbackMomentum opts st) =
     (if ref_current st = None then view st
      else (timers st @ (nextTimer st, MomentumX) # (Suc (nextTimer st), MomentumY) #
              (if applyRubberBandEffect opts then [(Suc (Suc (nextTimer st)), SnapBack)] else []),
            (if applyRubberBandEffect opts then Suc (Suc (Suc (nextTimer st)))
             else Suc (Suc (nextTimer st))),
            Some (nextTimer st), Some (Suc (nextTimer st)),
            scrollSpeedX st, scrollSpeedY st, False, False))"
  by (simp add: view_def callbackMomentum_def setTimer_def Let_def split: option.splits)

lemma view_onMouseUp:
  "view (onMouseUp opts st x y) =
     (if ref_current st \<noteq> None \<and> isDraggingConfirmed opts st x y
      then view (callbackMomentum opts st) else view st)"
proof (cases "ref_current st")
  case None
  then show ?thesis by (simp add: onMouseUp_def)
next
  case (Some el)
  then show ?thesis
    by (simp add: onMouseUp_def Let_def view_callbackMomentum) (simp add: view_def)
qed

lemma view_keepMovingX_tick:
  "view (keepMovingX_tick opts st) =
     (case ref_current st of
        None \<Rightarrow> view st
      | Some el \<Rightarrow>
          if stopsX opts st el
          then (filter (\<lambda>p. Some (fst p) \<noteq> keepMovingX st) (timers st), nextTimer st,
                keepMovingX st, keepMovingY st, 0, scrollSpeedY st,
                isDraggingX st, isDraggingY st)
          else (timers st, nextTimer st, keepMovingX st, keepMovingY st,
                scrollSpeedX st * decayRate opts, scrollSpeedY st,
                isDraggingX st, isDraggingY st))"
  by (auto simp add: view_def keepMovingX_tick_def runScroll_def clearTimer_def stopsX_def
      minimumSpeedToTriggerMomentum_def Let_def split: option.splits intro: filter_cong)

lemma view_keepMovingY_tick:
  "view (keepMovingY_tick opts st) =
     (case ref_current st of
        None \<Rightarrow> view st
      | Some el \<Rightarrow>
          if stopsY opts st el
          then (filter (\<lambda>p. Some (fst p) \<noteq> keepMovingY st) (timers st), nextTimer st,
                keepMovingX st, keepMovingY st, scrollSpeedX st, 0,
                isDraggingX st, isDraggingY st)
          else (timers st, nextTimer st, keepMovingX st, keepMovingY st,
                scrollSpeedX st, scrollSpeedY st * decayRate opts,
                isDraggingX st, isDraggingY st))"
  by (auto simp add: view_def keepMovingY_tick_def runScroll_def clearTimer_def stopsY_def
      minimumSpeedToTriggerMomentum_def Let_def split: option.splits intro: filter_cong)

lemma view_clearTimer:
  "view (clearTimer (Some h) st) =
     (filter (\<lambda>p. fst p \<noteq> h) (timers st), nextTimer st, keepMovingX st, keepMovingY st,
      scrollSpeedX st, scrollSpeedY st, isDraggingX st, isDraggingY st)"
  by (simp add: view_def clearTimer_def)


lemma wfv_momentum:
  assumes "wfv (ts, n, kx, ky, sx, sy, dx, dy)"
  shows "wfv (ts @ (n, MomentumX) # (Suc n, MomentumY) #
                (if rubber then [(Suc (Suc n), SnapBack)] else []),
              (if rubber then Suc (Suc (Suc n)) else Suc (Suc n)),
              Some n, Some (Suc n), sx, sy, False, False)"
  using assms by (cases rubber) (auto simp add: image_Un)

lemma wfv_move:
  assumes "wfv (ts, n, kx, ky, sx, sy, dx, dy)"
  shows "wfv (ts, n, kx, ky, sx', sy', True, True)"
  using assms by simp

lemma wfv_decayX:
  assumes "wfv (ts, n, kx, ky, sx, sy, dx, dy)"
  shows "wfv (ts, n, kx, ky, sx * r, sy, dx, dy)"
  using assms by auto

lemma wfv_decayY:
  assumes "wfv (ts, n, kx, ky, sx, sy, dx, dy)"
  shows "wfv (ts, n, kx, ky, sx, sy * r, dx, dy)"
  using assms by auto

lemma wfv_stopX:
  assumes "wfv (ts, n, kx, ky, sx, sy, dx, dy)"
  shows "wfv (filter (\<lambda>p. Some (fst p) \<noteq> kx) ts, n, kx, ky, 0, sy, dx, dy)"
proof -
  have "MomentumY \<in> snd ` set (filter (\<lambda>p. Some (fst p) \<noteq> kx) ts)"
    if "MomentumY \<in> snd ` set ts"
  proof -
    from that obtain a where a: "(a, MomentumY) \<in> set ts" by force
    with assms have "kx \<noteq> Some a" by force
    with a show ?thesis by force
  qed
  with assms show ?thesis
    by (auto simp add: distinct_map_filter)
qed

lemma wfv_stopY:
  assumes "wfv (ts, n, kx, ky, sx, sy, dx, dy)"
  shows "wfv (filter (\<lambda>p. Some (fst p) \<noteq> ky) ts, n, kx, ky, sx, 0, dx, dy)"
proof -
  have "MomentumX \<in> snd ` set (filter (\<lambda>p. Some (fst p) \<noteq> ky) ts)"
    if "MomentumX \<in> snd ` set ts"
  proof -
    from that obtain a where a: "(a, MomentumX) \<in> set ts" by force
    with assms have "ky \<noteq> Some a" by force
    with a show ?thesis by force
  qed
  with assms show ?thesis
    by (auto simp add: distinct_map_filter)
qed

lemma wfv_clear_snap:
  assumes "wfv (ts, n, kx, ky, sx, sy, dx, dy)" and "map_of ts h = Some SnapBack"
  shows "wfv (filter (\<lambda>p. fst p \<noteq> h) ts, n, kx, ky, sx, sy, dx, dy)"
proof -
  have d: "distinct (map fst ts)" using assms(1) by simp
  have k: "k = SnapBack" if "(h, k) \<in> set ts" for k
    using map_of_is_SomeI [OF d that] assms(2) by simp
  have "t \<in> snd ` set (filter (\<lambda>p. fst p \<noteq> h) ts)"
    if "t \<noteq> SnapBack" and "t \<in> snd ` set ts" for t
  proof -
    from that(2) obtain a where a: "(a, t) \<in> set ts" by force
    with k that(1) have "a \<noteq> h" by blast
    with a show ?thesis by force
  qed
  with assms(1) show ?thesis
    by (auto simp add: distinct_map_filter)
qed


declare wfv.simps [simp del]

lemma retired_handlers [simp]:
  "retired (runScroll st) = retired st"
  "retired (rubberBandCallback st x y) = retired st"
  "retired (onMouseDown opts st b x y) = retired st"
  "retired (handleResize st) = retired st"
  "retired (clearTimer k st) = retired st"
  "retired (callbackMomentum opts st) = retired st"
  "retired (finalState (recoverChildStyle st)) = retired st"
  by (simp_all add: runScroll_def rubberBandCallback_def onMouseDown_def handleResize_def
      clearTimer_def callbackMomentum_def setTimer_def recoverChildStyle_def finalState_def
      Let_def split: option.splits sum.splits)

lemma retired_ticks [simp]:
  "retired (keepMovingX_tick opts st) = retired st"
  "retired (keepMovingY_tick opts st) = retired st"
  by (simp_all add: keepMovingX_tick_def keepMovingY_tick_def Let_def split: option.splits)

lemma retired_onMouseMove [simp]: "retired (onMouseMove opts st x y) = retired st"
  by (simp add: onMouseMove_def Let_def split: option.splits)

lemma retired_onMouseUp [simp]: "retired (onMouseUp opts st x y) = retired st"
  by (simp add: onMouseUp_def Let_def split: option.splits)

lemma finalState_run:
  "finalState (run opts (ev # evs) st) =
   finalState (run opts evs (finalState (dispatch opts ev st)))"
  by (simp add: finalState_def split: sum.splits)

lemma wf_mount: "wf (mount opts r)"
  by (simp add: wf_def view_def mount_def useEffect_def useLayoutEffect_def initial_state_def
      wfv.simps split: option.splits)

lemma wf_dispatch:
  assumes "wf st" and "keepsEffects ev"
  shows "wf (finalState (dispatch opts ev st))"
proof -
  from assms(1) have w: "wfv (timers st, nextTimer st, keepMovingX st, keepMovingY st,
      scrollSpeedX st, scrollSpeedY st, isDraggingX st, isDraggingY st)"
    and r: "retired st = []"
    by (simp_all add: wf_def view_def)
  show ?thesis
  proof (cases ev)
    case (MouseDown b x y)
    with assms show ?thesis by (simp add: dispatch_def finalState_def wf_def)
  next
    case (MouseMove x y)
    have "wfv (view (onMouseMove opts st x y))"
      using w wfv_move [OF w] unfolding view_onMouseMove by (simp add: view_def)
    with MouseMove assms show ?thesis
      by (simp add: dispatch_def finalState_def wf_def)
  next
    case (MouseUp x y)
    have "wfv (view (onMouseUp opts st x y))"
      using w wfv_momentum [OF w, of "applyRubberBandEffect opts"]
      unfolding view_onMouseUp view_callbackMomentum by (simp add: view_def)
    with MouseUp assms show ?thesis
      by (simp add: dispatch_def finalState_def wf_def)
  next
    case Resize
    with assms show ?thesis by (simp add: dispatch_def finalState_def wf_def)
  next
    case (Fire h)
    show ?thesis
    proof (cases "map_of (timers st) h")
      case None
      with Fire assms show ?thesis by (simp add: dispatch_def finalState_def)
    next
      case (Some k)
      show ?thesis
      proof (cases k)
        case MomentumX
        have "wfv (view (keepMovingX_tick opts st))"
          using w wfv_stopX [OF w] wfv_decayX [OF w, of "decayRate opts"]
          unfolding view_keepMovingX_tick by (simp add: view_def split: option.splits)
        with Fire Some MomentumX r show ?thesis
          by (simp add: dispatch_def finalState_def wf_def)
      next
        case MomentumY
        have "wfv (view (keepMovingY_tick opts st))"
          using w wfv_stopY [OF w] wfv_decayY [OF w, of "decayRate opts"]
          unfolding view_keepMovingY_tick by (simp add: view_def split: option.splits)
        with Fire Some MomentumY r show ?thesis
          by (simp add: dispatch_def finalState_def wf_def)
      next
        case SnapBack
        have v: "wfv (view (clearTimer (Some h) st))"
          using Some SnapBack wfv_clear_snap [OF w, of h]
          by (simp add: view_clearTimer)
        have "finalState (dispatch opts (Fire h) st) =
            finalState (recoverChildStyle (clearTimer (Some h) st))"
          using Some SnapBack r
          by (simp add: dispatch_def finalState_def split: sum.splits)
        with Fire v r show ?thesis
          by (simp add: wf_def)
      qed
    qed
  next
    case (Host r)
    with assms show ?thesis by (simp add: dispatch_def finalState_def wf_def)
  next
    case (SetMounted b)
    with assms(2) show ?thesis by (simp add: keepsEffects_def)
  qed
qed

lemma wf_run: "wf st \<Longrightarrow> list_all keepsEffects evs \<Longrightarrow> wf (finalState (run opts evs st))"
proof (induction evs arbitrary: st)
  case Nil
  then show ?case by (simp add: finalState_def)
next
  case (Cons ev evs)
  from Cons.prems have a: "wf (finalState (dispatch opts ev st))"
    and b: "list_all keepsEffects evs"
    by (simp_all add: wf_dispatch)
  from Cons.IH [OF a b] show ?case
    by (simp only: finalState_run)
qed


text \<open>
  In a state of the invariant, \<open>callbackMomentum\<close> on a present container leaves both loops
  running under the handles it has just created, with the speeds as they were.
\<close>

lemma map_of_fresh:
  assumes "\<forall>p \<in> set ts. fst p < n"
  shows "map_of (ts @ (n, a) # (Suc n, b) # rest) n = Some a"
    and "map_of (ts @ (n, a) # (Suc n, b) # rest) (Suc n) = Some b"
    and "map_of (ts @ [(n, a), (Suc n, b), (Suc (Suc n), c)]) (Suc (Suc n)) = Some c"
proof -
  have "map_of ts n = None" "map_of ts (Suc n) = None" "map_of ts (Suc (Suc n)) = None"
    using assms by (force simp add: map_of_eq_None_iff)+
  then show "map_of (ts @ (n, a) # (Suc n, b) # rest) n = Some a"
    and "map_of (ts @ (n, a) # (Suc n, b) # rest) (Suc n) = Some b"
    and "map_of (ts @ [(n, a), (Suc n, b), (Suc (Suc n), c)]) (Suc (Suc n)) = Some c"
    by (simp_all add: map_add_def)
qed

lemma callbackMomentum_starts_loops:
  assumes "wf st" and "ref_current st \<noteq> None"
  shows "runningX (callbackMomentum opts st) (nextTimer st)"
    and "runningY (callbackMomentum opts st) (Suc (nextTimer st))"
    and "scrollSpeedX (callbackMomentum opts st) = scrollSpeedX st"
    and "scrollSpeedY (callbackMomentum opts st) = scrollSpeedY st"
proof -
  from assms(1) have f: "\<forall>p \<in> set (timers st). fst p < nextTimer st"
    and rt: "retired st = []"
    by (simp_all add: wf_def view_def wfv.simps)
  from assms(2) obtain el where el: "ref_current st = Some el" by auto
  have v: "view (callbackMomentum opts st) =
      (timers st @ (nextTimer st, MomentumX) # (Suc (nextTimer st), MomentumY) #
              (if applyRubberBandEffect opts then [(Suc (Suc (nextTimer st)), SnapBack)] else []),
            (if applyRubberBandEffect opts then Suc (Suc (Suc (nextTimer st)))
             else Suc (Suc (nextTimer st))),
            Some (nextTimer st), Some (Suc (nextTimer st)),
            scrollSpeedX st, scrollSpeedY st, False, False)"
    using el by (simp add: view_callbackMomentum)
  have r: "ref_current (callbackMomentum opts st) \<noteq> None"
    using el by (simp add: callbackMomentum_def setTimer_def Let_def)
  from v r rt map_of_fresh [OF f]
  show "runningX (callbackMomentum opts st) (nextTimer st)"
    and "runningY (callbackMomentum opts st) (Suc (nextTimer st))"
    and "scrollSpeedX (callbackMomentum opts st) = scrollSpeedX st"
    and "scrollSpeedY (callbackMomentum opts st) = scrollSpeedY st"
    by (simp_all add: view_def runningX_def runningY_def)
qed

text \<open>
  A confirmed release with the rubber band enabled sets the snap-back timeout, under the
  third handle that \<open>callbackMomentum\<close> takes.
\<close>

lemma confirmed_release_sets_snap_back:
  assumes "wf st" and "ref_current st \<noteq> None" and "listening st"
    and "applyRubberBandEffect opts" and "isDraggingConfirmed opts st x y"
  shows "\<exists>st1. dispatch opts (MouseUp x y) st = Inr st1 \<and>
           map_of (timers st1) (Suc (Suc (nextTimer st))) = Some SnapBack"
proof -
  from assms(1) have f: "\<forall>p \<in> set (timers st). fst p < nextTimer st"
    by (simp add: wf_def view_def wfv.simps)
  from assms(2) obtain el where el: "ref_current st = Some el"
    by auto
  have "view (onMouseUp opts st x y) =
      (timers st @ [(nextTimer st, MomentumX), (Suc (nextTimer st), MomentumY),
                    (Suc (Suc (nextTimer st)), SnapBack)],
       Suc (Suc (Suc (nextTimer st))), Some (nextTimer st), Some (Suc (nextTimer st)),
       scrollSpeedX st, scrollSpeedY st, False, False)"
    using el assms(4,5) by (simp add: view_onMouseUp view_callbackMomentum)
  then have "timers (onMouseUp opts st x y) =
      timers st @ [(nextTimer st, MomentumX), (Suc (nextTimer st), MomentumY),
                   (Suc (Suc (nextTimer st)), SnapBack)]"
    by (simp add: view_def)
  with map_of_fresh(3) [OF f] assms(3) show ?thesis
    by (simp add: dispatch_def)
qed

text \<open>
  When no interval is live, \<open>callbackMomentum\<close> leaves both loops gliding: each is the only
  live interval of its axis.
\<close>

lemma callbackMomentum_starts_gliding:
  assumes "wf st" and "ref_current st \<noteq> None"
    and "\<forall>p \<in> set (timers st). snd p = SnapBack"
  shows "glidingX (callbackMomentum opts st) (nextTimer st)"
    and "glidingY (callbackMomentum opts st) (Suc (nextTimer st))"
proof -
  from assms(1) have rt: "retired st = []"
    by (simp add: wf_def)
  from assms(2) obtain el where el: "ref_current st = Some el" by auto
  have v: "view (callbackMomentum opts st) =
      (timers st @ (nextTimer st, MomentumX) # (Suc (nextTimer st), MomentumY) #
              (if applyRubberBandEffect opts then [(Suc (Suc (nextTimer st)), SnapBack)] else []),
            (if applyRubberBandEffect opts then Suc (Suc (Suc (nextTimer st)))
             else Suc (Suc (nextTimer st))),
            Some (nextTimer st), Some (Suc (nextTimer st)),
            scrollSpeedX st, scrollSpeedY st, False, False)"
    using el by (simp add: view_callbackMomentum)
  then have t: "timers (callbackMomentum opts st) =
      timers st @ (nextTimer st, MomentumX) # (Suc (nextTimer st), MomentumY) #
        (if applyRubberBandEffect opts then [(Suc (Suc (nextTimer st)), SnapBack)] else [])"
    and k: "keepMovingX (callbackMomentum opts st) = Some (nextTimer st)"
      "keepMovingY (callbackMomentum opts st) = Some (Suc (nextTimer st))"
    by (simp_all add: view_def)
  from callbackMomentum_starts_loops(1,2) [OF assms(1,2), of opts] rt k assms(3)
  show "glidingX (callbackMomentum opts st) (nextTimer st)"
    and "glidingY (callbackMomentum opts st) (Suc (nextTimer st))"
    unfolding glidingX_def glidingY_def t by auto
qed

subsection \<open>Intervals that are no longer named\<close>

text \<open>
  An interval of the horizontal axis that \<open>keepMovingX\<close> does not name (any more) is never
  cleared by its own tick, which clears the interval that \<open>keepMovingX\<close> names; likewise
  for the vertical axis.
\<close>

lemma map_of_filter_other:
  "k \<noteq> Some h \<Longrightarrow> map_of (filter (\<lambda>p. Some (fst p) \<noteq> k) ts) h = map_of ts h"
  by (induction ts) auto

lemma overtaken_tickX:
  assumes "map_of (timers st) h = Some MomentumX" and "keepMovingX st \<noteq> Some h"
    and "map_of (retired st) h = None"
  shows "map_of (timers (tick opts h st)) h = Some MomentumX \<and>
         keepMovingX (tick opts h st) \<noteq> Some h \<and> map_of (retired (tick opts h st)) h = None"
proof -
  have t: "tick opts h st = keepMovingX_tick opts st"
    using assms(1,3) by (simp add: tick_def)
  have "view (tick opts h st) = view (keepMovingX_tick opts st)"
    by (simp only: t)
  then show ?thesis
    using assms t unfolding view_keepMovingX_tick
    by (auto simp add: view_def map_of_filter_other split: option.splits if_splits)
qed

lemma overtaken_tickY:
  assumes "map_of (timers st) h = Some MomentumY" and "keepMovingY st \<noteq> Some h"
    and "map_of (retired st) h = None"
  shows "map_of (timers (tick opts h st)) h = Some MomentumY \<and>
         keepMovingY (tick opts h st) \<noteq> Some h \<and> map_of (retired (tick opts h st)) h = None"
proof -
  have t: "tick opts h st = keepMovingY_tick opts st"
    using assms(1,3) by (simp add: tick_def)
  have "view (tick opts h st) = view (keepMovingY_tick opts st)"
    by (simp only: t)
  then show ?thesis
    using assms t unfolding view_keepMovingY_tick
    by (auto simp add: view_def map_of_filter_other split: option.splits if_splits)
qed

lemma overtaken_loop_never_ends:
  assumes "map_of (timers st) h = Some MomentumX \<and> keepMovingX st \<noteq> Some h \<or>
           map_of (timers st) h = Some MomentumY \<and> keepMovingY st \<noteq> Some h"
    and "map_of (retired st) h = None"
  shows "momentumLoop opts h n st = None"
  using assms
proof (induction n arbitrary: st)
  case 0
  then show ?case by (auto simp add: liveInterval_def)
next
  case (Suc n)
  from Suc.prems have l: "liveInterval st h"
    by (auto simp add: liveInterval_def)
  from Suc.prems overtaken_tickX [of st h opts] overtaken_tickY [of st h opts]
  have "(map_of (timers (tick opts h st)) h = Some MomentumX \<and>
           keepMovingX (tick opts h st) \<noteq> Some h \<or>
         map_of (timers (tick opts h st)) h = Some MomentumY \<and>
           keepMovingY (tick opts h st) \<noteq> Some h) \<and>
        map_of (retired (tick opts h st)) h = None"
    by blast
  with Suc.IH [of "tick opts h st"] l show ?case
    by simp
qed

subsection \<open>A gliding loop with other timers in between\<close>

text \<open>
  Shared facts: what a timer or a resize does to a gliding loop (a tick of the loop either
  decays the speed or ends the loop, anything else leaves the loop as it is), what it does
  once the loop has ended, and the phase of the loop after a sequence of such events.
\<close>

lemma map_of_filter_neq: "h \<noteq> i \<Longrightarrow> map_of (filter (\<lambda>p. fst p \<noteq> i) ts) h = map_of ts h"
  by (induction ts) auto

lemma glideXv_stopX:
  assumes "glideXv h sp (ts, n, kx, ky, sx, sy, dx, dy)"
  shows "endedXv h (filter (\<lambda>p. Some (fst p) \<noteq> kx) ts, n, kx, ky, 0, sy, dx, dy)"
  using assms by (auto simp add: map_of_filter_fst)

lemma glideXv_decayX:
  assumes "glideXv h sp (ts, n, kx, ky, sx, sy, dx, dy)"
  shows "glideXv h (sp * r) (ts, n, kx, ky, sx * r, sy, dx, dy)"
  using assms by auto

lemma glideXv_stopY:
  assumes "glideXv h sp (ts, n, kx, ky, sx, sy, dx, dy)"
  shows "glideXv h sp (filter (\<lambda>p. Some (fst p) \<noteq> ky) ts, n, kx, ky, sx, sy', dx, dy)"
  using assms by (auto simp add: map_of_filter_other)

lemma glideXv_decayY:
  assumes "glideXv h sp (ts, n, kx, ky, sx, sy, dx, dy)"
  shows "glideXv h sp (ts, n, kx, ky, sx, sy', dx, dy)"
  using assms by auto

lemma glideXv_clear:
  assumes "glideXv h sp (ts, n, kx, ky, sx, sy, dx, dy)" and "h' \<noteq> h"
  shows "glideXv h sp (filter (\<lambda>p. fst p \<noteq> h') ts, n, kx, ky, sx, sy, dx, dy)"
  using assms by (auto simp add: map_of_filter_neq)

lemma endedXv_filter:
  assumes "endedXv h (ts, n, kx, ky, sx, sy, dx, dy)"
  shows "endedXv h (filter P ts, n, kx, ky, sx, sy', dx, dy)"
  using assms by (auto simp add: map_of_eq_None_iff)

lemma endedXv_speedY:
  assumes "endedXv h (ts, n, kx, ky, sx, sy, dx, dy)"
  shows "endedXv h (ts, n, kx, ky, sx, sy', dx, dy)"
  using assms by auto

lemma glideYv_stopY:
  assumes "glideYv h sp (ts, n, kx, ky, sx, sy, dx, dy)"
  shows "endedYv h (filter (\<lambda>p. Some (fst p) \<noteq> ky) ts, n, kx, ky, sx, 0, dx, dy)"
  using assms by (auto simp add: map_of_filter_fst)

lemma glideYv_decayY:
  assumes "glideYv h sp (ts, n, kx, ky, sx, sy, dx, dy)"
  shows "glideYv h (sp * r) (ts, n, kx, ky, sx, sy * r, dx, dy)"
  using assms by auto

lemma glideYv_stopX:
  assumes "glideYv h sp (ts, n, kx, ky, sx, sy, dx, dy)"
  shows "glideYv h sp (filter (\<lambda>p. Some (fst p) \<noteq> kx) ts, n, kx, ky, sx', sy, dx, dy)"
  using assms by (auto simp add: map_of_filter_other)

lemma glideYv_decayX:
  assumes "glideYv h sp (ts, n, kx, ky, sx, sy, dx, dy)"
  shows "glideYv h sp (ts, n, kx, ky, sx', sy, dx, dy)"
  using assms by auto

lemma glideYv_clear:
  assumes "glideYv h sp (ts, n, kx, ky, sx, sy, dx, dy)" and "h' \<noteq> h"
  shows "glideYv h sp (filter (\<lambda>p. fst p \<noteq> h') ts, n, kx, ky, sx, sy, dx, dy)"
  using assms by (auto simp add: map_of_filter_neq)

lemma endedYv_filter:
  assumes "endedYv h (ts, n, kx, ky, sx, sy, dx, dy)"
  shows "endedYv h (filter P ts, n, kx, ky, sx', sy, dx, dy)"
  using assms by (auto simp add: map_of_eq_None_iff)

lemma endedYv_speedX:
  assumes "endedYv h (ts, n, kx, ky, sx, sy, dx, dy)"
  shows "endedYv h (ts, n, kx, ky, sx', sy, dx, dy)"
  using assms by auto

declare glideXv.simps [simp del] endedXv.simps [simp del]

declare glideYv.simps [simp del] endedYv.simps [simp del]

lemma ref_current_recoverChildStyle [simp]:
  "(ref_current (finalState (recoverChildStyle st)) = None) = (ref_current st = None)"
  by (simp add: recoverChildStyle_def finalState_def split: option.splits sum.splits)

lemma glideX_step:
  assumes r: "retired st = []" and b: "besideLoop ev"
    and p: "ref_current st \<noteq> None" and g: "glideXv h sp (view st)"
  shows "retired (finalState (dispatch opts ev st)) = [] \<and>
         (if ev = Fire h
          then ref_current (finalState (dispatch opts ev st)) \<noteq> None \<and>
               glideXv h (sp * decayRate opts) (view (finalState (dispatch opts ev st))) \<and>
               \<not> \<bar>sp * decayRate opts\<bar> < 0.05 \<or>
               endedXv h (view (finalState (dispatch opts ev st)))
          else ref_current (finalState (dispatch opts ev st)) \<noteq> None \<and>
               glideXv h sp (view (finalState (dispatch opts ev st))))"
proof -
  from p obtain el where el: "ref_current st = Some el" by auto
  from g have w: "glideXv h sp (timers st, nextTimer st, keepMovingX st, keepMovingY st,
      scrollSpeedX st, scrollSpeedY st, isDraggingX st, isDraggingY st)"
    by (simp add: view_def)
  then have s: "scrollSpeedX st = sp" and m: "map_of (timers st) h = Some MomentumX"
    and sole: "\<forall>p \<in> set (timers st). snd p = MomentumX \<longrightarrow> fst p = h"
    by (simp_all add: glideXv.simps)
  show ?thesis
  proof (cases ev)
    case Resize
    have "ref_current (handleResize st) = ref_current st"
      by (simp add: handleResize_def split: option.splits)
    with Resize r el g show ?thesis
      by (simp add: dispatch_def finalState_def)
  next
    case (Fire h')
    show ?thesis
    proof (cases "map_of (timers st) h'")
      case None
      with Fire r p g m show ?thesis
        by (auto simp add: dispatch_def finalState_def)
    next
      case (Some k)
      show ?thesis
      proof (cases k)
        case MomentumX
        from map_of_SomeD [OF Some] MomentumX sole have hh: "h' = h" by auto
        have f: "finalState (dispatch opts ev st) = keepMovingX_tick opts st"
          using Fire Some MomentumX r by (simp add: dispatch_def finalState_def)
        from glideXv_stopX [OF w] glideXv_decayX [OF w, of "decayRate opts"] hh Fire r s
          keepMovingX_tick_fields(1) [OF el, of opts]
        show ?thesis
          unfolding f view_keepMovingX_tick by (simp add: el stopsX_def)
      next
        case MomentumY
        with Some m have hh: "h' \<noteq> h" by auto
        have f: "finalState (dispatch opts ev st) = keepMovingY_tick opts st"
          using Fire Some MomentumY r by (simp add: dispatch_def finalState_def)
        from glideXv_stopY [OF w, of 0] glideXv_decayY [OF w, of "scrollSpeedY st * decayRate opts"]
          hh Fire r keepMovingY_tick_fields(1) [OF el, of opts]
        show ?thesis
          unfolding f view_keepMovingY_tick by (simp add: el)
      next
        case SnapBack
        with Some m have hh: "h' \<noteq> h" by auto
        have f: "finalState (dispatch opts ev st) =
            finalState (recoverChildStyle (clearTimer (Some h') st))"
          using Fire Some SnapBack r
          by (simp add: dispatch_def finalState_def split: sum.splits)
        have "ref_current (clearTimer (Some h') st) \<noteq> None"
          using p by (simp add: clearTimer_def)
        with f glideXv_clear [OF w hh] hh Fire r show ?thesis
          by (simp add: view_clearTimer)
      qed
    qed
  qed (use b in \<open>simp_all add: besideLoop_def\<close>)
qed


lemma endedX_step:
  assumes r: "retired st = []" and b: "besideLoop ev" and g: "endedXv h (view st)"
  shows "retired (finalState (dispatch opts ev st)) = [] \<and>
         endedXv h (view (finalState (dispatch opts ev st)))"
proof -
  from g have w: "endedXv h (timers st, nextTimer st, keepMovingX st, keepMovingY st,
      scrollSpeedX st, scrollSpeedY st, isDraggingX st, isDraggingY st)"
    by (simp add: view_def)
  then have nx: "\<forall>p \<in> set (timers st). snd p \<noteq> MomentumX"
    by (simp add: endedXv.simps)
  show ?thesis
  proof (cases ev)
    case Resize
    with r g show ?thesis
      by (simp add: dispatch_def finalState_def)
  next
    case (Fire h')
    show ?thesis
    proof (cases "map_of (timers st) h'")
      case None
      with Fire r g show ?thesis
        by (simp add: dispatch_def finalState_def)
    next
      case (Some k)
      show ?thesis
      proof (cases k)
        case MomentumX
        with map_of_SomeD [OF Some] nx show ?thesis by auto
      next
        case MomentumY
        have f: "finalState (dispatch opts ev st) = keepMovingY_tick opts st"
          using Fire Some MomentumY r by (simp add: dispatch_def finalState_def)
        from endedXv_filter [OF w, of "\<lambda>p. Some (fst p) \<noteq> keepMovingY st" 0]
          endedXv_speedY [OF w, of "scrollSpeedY st * decayRate opts"] w f r
        show ?thesis
          unfolding f view_keepMovingY_tick
          by (simp add: view_def split: option.splits)
      next
        case SnapBack
        have f: "finalState (dispatch opts ev st) =
            finalState (recoverChildStyle (clearTimer (Some h') st))"
          using Fire Some SnapBack r
          by (simp add: dispatch_def finalState_def split: sum.splits)
        from f endedXv_filter [OF w, of "\<lambda>p. fst p \<noteq> h'" "scrollSpeedY st"] r show ?thesis
          by (simp add: view_clearTimer)
      qed
    qed
  qed (use b in \<open>simp_all add: besideLoop_def\<close>)
qed

lemma phaseX_step:
  assumes "phaseX opts h s n st" and "besideLoop ev"
  shows "phaseX opts h s (if ev = Fire h then Suc n else n) (finalState (dispatch opts ev st))"
proof -
  from assms(1) have r: "retired st = []" by (simp add: phaseX_def)
  from assms(1) consider
    (glide) "ref_current st \<noteq> None" "glideXv h (s * decayRate opts ^ n) (view st)"
      "n = 0 \<or> \<not> \<bar>s * decayRate opts ^ n\<bar> < 0.05"
    | (ended) "endedXv h (view st)"
    by (auto simp add: phaseX_def)
  then show ?thesis
  proof cases
    case glide
    have e: "s * (decayRate opts * decayRate opts ^ n) = s * decayRate opts ^ n * decayRate opts"
      by simp
    from glideX_step [OF r assms(2) glide(1,2), of opts] glide(3) show ?thesis
      unfolding phaseX_def by (cases "ev = Fire h") (auto simp add: e)
  next
    case ended
    from endedX_step [OF r assms(2) ended, of opts] show ?thesis
      by (simp add: phaseX_def)
  qed
qed

lemma phaseX_run:
  "phaseX opts h s n st \<Longrightarrow> list_all besideLoop evs \<Longrightarrow>
   phaseX opts h s (n + count_list evs (Fire h)) (finalState (run opts evs st))"
proof (induction evs arbitrary: st n)
  case Nil
  then show ?case by (simp add: finalState_def)
next
  case (Cons ev evs)
  from Cons.prems have a: "phaseX opts h s (if ev = Fire h then Suc n else n)
      (finalState (dispatch opts ev st))"
    and b: "list_all besideLoop evs"
    by (simp_all add: phaseX_step)
  from Cons.IH [OF a b] show ?case
    unfolding finalState_run by (cases "ev = Fire h") simp_all
qed

lemma glideY_step:
  assumes r: "retired st = []" and b: "besideLoop ev"
    and p: "ref_current st \<noteq> None" and g: "glideYv h sp (view st)"
  shows "retired (finalState (dispatch opts ev st)) = [] \<and>
         (if ev = Fire h
          then ref_current (finalState (dispatch opts ev st)) \<noteq> None \<and>
               glideYv h (sp * decayRate opts) (view (finalState (dispatch opts ev st))) \<and>
               \<not> \<bar>sp * decayRate opts\<bar> < 0.05 \<or>
               endedYv h (view (finalState (dispatch opts ev st)))
          else ref_current (finalState (dispatch opts ev st)) \<noteq> None \<and>
               glideYv h sp (view (finalState (dispatch opts ev st))))"
proof -
  from p obtain el where el: "ref_current st = Some el" by auto
  from g have w: "glideYv h sp (timers st, nextTimer st, keepMovingX st, keepMovingY st,
      scrollSpeedX st, scrollSpeedY st, isDraggingX st, isDraggingY st)"
    by (simp add: view_def)
  then have s: "scrollSpeedY st = sp" and m: "map_of (timers st) h = Some MomentumY"
    and sole: "\<forall>p \<in> set (timers st). snd p = MomentumY \<longrightarrow> fst p = h"
    by (simp_all add: glideYv.simps)
  show ?thesis
  proof (cases ev)
    case Resize
    have "ref_current (handleResize st) = ref_current st"
      by (simp add: handleResize_def split: option.splits)
    with Resize r el g show ?thesis
      by (simp add: dispatch_def finalState_def)
  next
    case (Fire h')
    show ?thesis
    proof (cases "map_of (timers st) h'")
      case None
      with Fire r p g m show ?thesis
        by (auto simp add: dispatch_def finalState_def)
    next
      case (Some k)
      show ?thesis
      proof (cases k)
        case MomentumY
        from map_of_SomeD [OF Some] MomentumY sole have hh: "h' = h" by auto
        have f: "finalState (dispatch opts ev st) = keepMovingY_tick opts st"
          using Fire Some MomentumY r by (simp add: dispatch_def finalState_def)
        from glideYv_stopY [OF w] glideYv_decayY [OF w, of "decayRate opts"] hh Fire r s
          keepMovingY_tick_fields(1) [OF el, of opts]
        show ?thesis
          unfolding f view_keepMovingY_tick by (simp add: el stopsY_def)
      next
        case MomentumX
        with Some m have hh: "h' \<noteq> h" by auto
        have f: "finalState (dispatch opts ev st) = keepMovingX_tick opts st"
          using Fire Some MomentumX r by (simp add: dispatch_def finalState_def)
        from glideYv_stopX [OF w, of 0] glideYv_decayX [OF w, of "scrollSpeedX st * decayRate opts"]
          hh Fire r keepMovingX_tick_fields(1) [OF el, of opts]
        show ?thesis
          unfolding f view_keepMovingX_tick by (simp add: el)
      next
        case SnapBack
        with Some m have hh: "h' \<noteq> h" by auto
        have f: "finalState (dispatch opts ev st) =
            finalState (recoverChildStyle (clearTimer (Some h') st))"
          using Fire Some SnapBack r
          by (simp add: dispatch_def finalState_def split: sum.splits)
        have "ref_current (clearTimer (Some h') st) \<noteq> None"
          using p by (simp add: clearTimer_def)
        with f glideYv_clear [OF w hh] hh Fire r show ?thesis
          by (simp add: view_clearTimer)
      qed
    qed
  qed (use b in \<open>simp_all add: besideLoop_def\<close>)
qed


lemma endedY_step:
  assumes r: "retired st = []" and b: "besideLoop ev" and g: "endedYv h (view st)"
  shows "retired (finalState (dispatch opts ev st)) = [] \<and>
         endedYv h (view (finalState (dispatch opts ev st)))"
proof -
  from g have w: "endedYv h (timers st, nextTimer st, keepMovingX st, keepMovingY st,
      scrollSpeedX st, scrollSpeedY st, isDraggingX st, isDraggingY st)"
    by (simp add: view_def)
  then have nx: "\<forall>p \<in> set (timers st). snd p \<noteq> MomentumY"
    by (simp add: endedYv.simps)
  show ?thesis
  proof (cases ev)
    case Resize
    with r g show ?thesis
      by (simp add: dispatch_def finalState_def)
  next
    case (Fire h')
    show ?thesis
    proof (cases "map_of (timers st) h'")
      case None
      with Fire r g show ?thesis
        by (simp add: dispatch_def finalState_def)
    next
      case (Some k)
      show ?thesis
      proof (cases k)
        case MomentumY
        with map_of_SomeD [OF Some] nx show ?thesis by auto
      next
        case MomentumX
        have f: "finalState (dispatch opts ev st) = keepMovingX_tick opts st"
          using Fire Some MomentumX r by (simp add: dispatch_def finalState_def)
        from endedYv_filter [OF w, of "\<lambda>p. Some (fst p) \<noteq> keepMovingX st" 0]
          endedYv_speedX [OF w, of "scrollSpeedX st * decayRate opts"] w f r
        show ?thesis
          unfolding f view_keepMovingX_tick
          by (simp add: view_def split: option.splits)
      next
        case SnapBack
        have f: "finalState (dispatch opts ev st) =
            finalState (recoverChildStyle (clearTimer (Some h') st))"
          using Fire Some SnapBack r
          by (simp add: dispatch_def finalState_def split: sum.splits)
        from f endedYv_filter [OF w, of "\<lambda>p. fst p \<noteq> h'" "scrollSpeedX st"] r show ?thesis
          by (simp add: view_clearTimer)
      qed
    qed
  qed (use b in \<open>simp_all add: besideLoop_def\<close>)
qed

lemma phaseY_step:
  assumes "phaseY opts h s n st" and "besideLoop ev"
  shows "phaseY opts h s (if ev = Fire h then Suc n else n) (finalState (dispatch opts ev st))"
proof -
  from assms(1) have r: "retired st = []" by (simp add: phaseY_def)
  from assms(1) consider
    (glide) "ref_current st \<noteq> None" "glideYv h (s * decayRate opts ^ n) (view st)"
      "n = 0 \<or> \<not> \<bar>s * decayRate opts ^ n\<bar> < 0.05"
    | (ended) "endedYv h (view st)"
    by (auto simp add: phaseY_def)
  then show ?thesis
  proof cases
    case glide
    have e: "s * (decayRate opts * decayRate opts ^ n) = s * decayRate opts ^ n * decayRate opts"
      by simp
    from glideY_step [OF r assms(2) glide(1,2), of opts] glide(3) show ?thesis
      unfolding phaseY_def by (cases "ev = Fire h") (auto simp add: e)
  next
    case ended
    from endedY_step [OF r assms(2) ended, of opts] show ?thesis
      by (simp add: phaseY_def)
  qed
qed

lemma phaseY_run:
  "phaseY opts h s n st \<Longrightarrow> list_all besideLoop evs \<Longrightarrow>
   phaseY opts h s (n + count_list evs (Fire h)) (finalState (run opts evs st))"
proof (induction evs arbitrary: st n)
  case Nil
  then show ?case by (simp add: finalState_def)
next
  case (Cons ev evs)
  from Cons.prems have a: "phaseY opts h s (if ev = Fire h then Suc n else n)
      (finalState (dispatch opts ev st))"
    and b: "list_all besideLoop evs"
    by (simp_all add: phaseY_step)
  from Cons.IH [OF a b] show ?case
    unfolding finalState_run by (cases "ev = Fire h") simp_all
qed


lemma glideX_result:
  assumes "0 < decayRate opts" and "decayRate opts < 1" and "glidingX st h"
    and "list_all besideLoop evs" and "\<bar>scrollSpeedX st\<bar> * decayRate opts ^ k < 0.05"
  shows "(liveInterval (finalState (run opts evs st)) h \<longrightarrow>
            scrollSpeedX (finalState (run opts evs st)) =
              scrollSpeedX st * decayRate opts ^ count_list evs (Fire h)) \<and>
         (Suc k \<le> count_list evs (Fire h) \<longrightarrow>
            \<not> liveInterval (finalState (run opts evs st)) h \<and>
            scrollSpeedX (finalState (run opts evs st)) = 0)"
proof -
  let ?n = "count_list evs (Fire h)" and ?st = "finalState (run opts evs st)"
  from assms(3) have "phaseX opts h (scrollSpeedX st) 0 st"
    by (simp add: phaseX_def glidingX_def runningX_def view_def glideXv.simps)
  from phaseX_run [OF this assms(4)]
  have p: "phaseX opts h (scrollSpeedX st) ?n ?st"
    by simp
  have v: "view ?st = (timers ?st, nextTimer ?st, keepMovingX ?st, keepMovingY ?st,
      scrollSpeedX ?st, scrollSpeedY ?st, isDraggingX ?st, isDraggingY ?st)"
    by (simp add: view_def)
  from p consider
    (glide) "glideXv h (scrollSpeedX st * decayRate opts ^ ?n) (view ?st)"
      "?n = 0 \<or> \<not> \<bar>scrollSpeedX st * decayRate opts ^ ?n\<bar> < 0.05"
    | (ended) "endedXv h (view ?st)"
    by (auto simp add: phaseX_def)
  then show ?thesis
  proof cases
    case glide
    from glide(1) have a: "scrollSpeedX ?st = scrollSpeedX st * decayRate opts ^ ?n"
      unfolding v by (simp add: glideXv.simps)
    have "\<not> Suc k \<le> ?n"
    proof
      assume b: "Suc k \<le> ?n"
      then have "decayRate opts ^ ?n \<le> decayRate opts ^ k"
        using assms(1,2) by (intro power_decreasing) simp_all
      then have "\<bar>scrollSpeedX st\<bar> * decayRate opts ^ ?n \<le> \<bar>scrollSpeedX st\<bar> * decayRate opts ^ k"
        by (intro mult_left_mono) simp_all
      with assms(1,5) have "\<bar>scrollSpeedX st * decayRate opts ^ ?n\<bar> < 0.05"
        by (simp add: abs_mult)
      with glide(2) b show False by simp
    qed
    with a show ?thesis by simp
  next
    case ended
    then have "map_of (timers ?st) h = None" "scrollSpeedX ?st = 0"
      unfolding v by (simp_all add: endedXv.simps)
    then show ?thesis
      by (simp add: liveInterval_def)
  qed
qed

lemma glideY_result:
  assumes "0 < decayRate opts" and "decayRate opts < 1" and "glidingY st h"
    and "list_all besideLoop evs" and "\<bar>scrollSpeedY st\<bar> * decayRate opts ^ k < 0.05"
  shows "(liveInterval (finalState (run opts evs st)) h \<longrightarrow>
            scrollSpeedY (finalState (run opts evs st)) =
              scrollSpeedY st * decayRate opts ^ count_list evs (Fire h)) \<and>
         (Suc k \<le> count_list evs (Fire h) \<longrightarrow>
            \<not> liveInterval (finalState (run opts evs st)) h \<and>
            scrollSpeedY (finalState (run opts evs st)) = 0)"
proof -
  let ?n = "count_list evs (Fire h)" and ?st = "finalState (run opts evs st)"
  from assms(3) have "phaseY opts h (scrollSpeedY st) 0 st"
    by (simp add: phaseY_def glidingY_def runningY_def view_def glideYv.simps)
  from phaseY_run [OF this assms(4)]
  have p: "phaseY opts h (scrollSpeedY st) ?n ?st"
    by simp
  have v: "view ?st = (timers ?st, nextTimer ?st, keepMovingX ?st, keepMovingY ?st,
      scrollSpeedX ?st, scrollSpeedY ?st, isDraggingX ?st, isDraggingY ?st)"
    by (simp add: view_def)
  from p consider
    (glide) "glideYv h (scrollSpeedY st * decayRate opts ^ ?n) (view ?st)"
      "?n = 0 \<or> \<not> \<bar>scrollSpeedY st * decayRate opts ^ ?n\<bar> < 0.05"
    | (ended) "endedYv h (view ?st)"
    by (auto simp add: phaseY_def)
  then show ?thesis
  proof cases
    case glide
    from glide(1) have a: "scrollSpeedY ?st = scrollSpeedY st * decayRate opts ^ ?n"
      unfolding v by (simp add: glideYv.simps)
    have "\<not> Suc k \<le> ?n"
    proof
      assume b: "Suc k \<le> ?n"
      then have "decayRate opts ^ ?n \<le> decayRate opts ^ k"
        using assms(1,2) by (intro power_decreasing) simp_all
      then have "\<bar>scrollSpeedY st\<bar> * decayRate opts ^ ?n \<le> \<bar>scrollSpeedY st\<bar> * decayRate opts ^ k"
        by (intro mult_left_mono) simp_all
      with assms(1,5) have "\<bar>scrollSpeedY st * decayRate opts ^ ?n\<bar> < 0.05"
        by (simp add: abs_mult)
      with glide(2) b show False by simp
    qed
    with a show ?thesis by simp
  next
    case ended
    then have "map_of (timers ?st) h = None" "scrollSpeedY ?st = 0"
      unfolding v by (simp_all add: endedYv.simps)
    then show ?thesis
      by (simp add: liveInterval_def)
  qed
qed

subsection \<open>The style snapshot invariant\<close>

text \<open>
  Shared facts: no handler changes the snapshot, the listeners or the shape of the
  children; with the snapshot in place \<open>recoverChildStyle\<close> does not fail; and what the two
  restoring loops leave in the children.
\<close>

lemma nonHtmlCursor_updates [simp]:
  "nonHtmlCursor (styleTransform_update ft c) = nonHtmlCursor c"
  "nonHtmlCursor (styleTransition_update ft c) = nonHtmlCursor c"
  "nonHtmlCursor (clickListener_update fb c) = nonHtmlCursor c"
  "isHTMLElement c \<Longrightarrow> nonHtmlCursor (styleCursor_update ft c) = nonHtmlCursor c"
  by (simp_all add: nonHtmlCursor_def)

lemma shape_restoreChildCursor [simp]: "shape (restoreChildCursor cur p) = shape (snd p)"
  by (simp add: restoreChildCursor_def shape_def split: option.splits)

lemma map_shape_enumerate:
  "(\<And>p. shape (f p) = shape (snd p)) \<Longrightarrow> map (shape \<circ> f) (enumerate n cs) = map shape cs"
  by (induction cs arbitrary: n) simp_all

lemma recoverChildren_Some:
  "recoverChildren (Some a) (Some b) i cs =
     Inr (map (\<lambda>p. if isHTMLElement (snd p)
                    then (snd p)\<lparr>styleTransform := arrayGet a (fst p),
                                 styleTransition := arrayGet b (fst p)\<rparr>
                    else snd p)
              (enumerate i cs))"
  by (induction cs arbitrary: i) simp_all

lemma sview_updates [simp]:
  "sview (scrollSpeedX_update fx st) = sview st"
  "sview (scrollSpeedY_update fy st) = sview st"
  "sview (isMouseDown_update fb st) = sview st"
  "sview (isDraggingX_update fb st) = sview st"
  "sview (isDraggingY_update fb st) = sview st"
  "sview (lastMouseX_update fx st) = sview st"
  "sview (lastMouseY_update fx st) = sview st"
  "sview (initialMouseX_update fx st) = sview st"
  "sview (initialMouseY_update fx st) = sview st"
  by (simp_all add: sview_def)

lemma sview_runScroll [simp]: "sview (runScroll st) = sview st"
  by (simp add: sview_def runScroll_def Let_def split: option.splits)

lemma sview_rubberBandCallback [simp]: "sview (rubberBandCallback st x y) = sview st"
  by (simp add: sview_def rubberBandCallback_def Let_def shape_def split: option.splits)

lemma sview_onMouseDown [simp]: "sview (onMouseDown opts st b x y) = sview st"
  by (simp add: sview_def onMouseDown_def split: option.splits)

lemma sview_handleResize [simp]: "sview (handleResize st) = sview st"
  by (simp add: sview_def handleResize_def split: option.splits)

lemma sview_clearTimer [simp]: "sview (clearTimer h st) = sview st"
  by (simp add: sview_def clearTimer_def split: option.splits)

lemma sview_callbackMomentum [simp]: "sview (callbackMomentum opts st) = sview st"
  by (simp add: sview_def callbackMomentum_def setTimer_def Let_def shape_def
      split: option.splits)

lemma sview_keepMovingX_tick [simp]: "sview (keepMovingX_tick opts st) = sview st"
proof (cases "ref_current st")
  case None
  then show ?thesis by (simp add: keepMovingX_tick_def)
next
  case (Some el)
  then show ?thesis
    by (simp add: keepMovingX_tick_def Let_def)
qed

lemma sview_keepMovingY_tick [simp]: "sview (keepMovingY_tick opts st) = sview st"
proof (cases "ref_current st")
  case None
  then show ?thesis by (simp add: keepMovingY_tick_def)
next
  case (Some el)
  then show ?thesis
    by (simp add: keepMovingY_tick_def Let_def)
qed

lemma sview_onMouseMove [simp]: "sview (onMouseMove opts st x y) = sview st"
proof (cases "isMouseDown st \<and> ref_current st \<noteq> None")
  case True
  then obtain el where "ref_current st = Some el" by auto
  with True show ?thesis
    by (simp add: onMouseMove_def Let_def) (simp add: sview_def shape_def)
next
  case False
  then show ?thesis
    by (auto simp add: onMouseMove_def split: option.splits)
qed

lemma sview_onMouseUp [simp]: "sview (onMouseUp opts st x y) = sview st"
proof (cases "ref_current st")
  case None
  then show ?thesis by (simp add: onMouseUp_def)
next
  case (Some el)
  have "map (shape \<circ> restoreChildCursor cur) (enumerate 0 (map (clickListener_update f) cs)) =
        map shape cs" for cur f cs
  proof -
    have "map (shape \<circ> restoreChildCursor cur)
            (enumerate 0 (map (clickListener_update f) cs)) =
          map shape (map (clickListener_update f) cs)"
      by (rule map_shape_enumerate) simp
    also have "\<dots> = map shape cs"
      by (simp add: shape_def)
    finally show ?thesis .
  qed
  with Some show ?thesis
    by (simp add: onMouseUp_def Let_def) (simp add: sview_def)
qed

lemma sview_recoverChildStyle:
  assumes "transformStyleOfChildElements st \<noteq> None" "transitionStyleOfChildElements st \<noteq> None"
  shows "\<exists>st'. recoverChildStyle st = Inr st' \<and> sview st' = sview st"
proof (cases "ref_current st")
  case None
  then show ?thesis by (simp add: recoverChildStyle_def)
next
  case (Some el)
  from assms obtain a b where ab: "transformStyleOfChildElements st = Some a"
    "transitionStyleOfChildElements st = Some b" by auto
  have "map (shape \<circ> (\<lambda>p. if isHTMLElement (snd p)
                    then (snd p)\<lparr>styleTransform := arrayGet a (fst p),
                                 styleTransition := arrayGet b (fst p)\<rparr>
                    else snd p)) (enumerate 0 cs) = map shape cs" for cs
    by (rule map_shape_enumerate) (simp add: shape_def)
  with Some ab show ?thesis
    by (simp add: recoverChildStyle_def recoverChildren_Some sview_def)
qed


lemma shape_nth:
  assumes "map shape cs = map shape cs0" and "i < length cs"
  shows "shape (cs ! i) = shape (cs0 ! i)" and "i < length cs0"
proof -
  from assms(1) have len: "length cs = length cs0" by (rule map_eq_imp_length_eq)
  with assms(2) show "i < length cs0" by simp
  from assms(1) have "map shape cs ! i = map shape cs0 ! i" by simp
  with assms(2) len show "shape (cs ! i) = shape (cs0 ! i)" by simp
qed

lemma nonHtmlCursor_of_shape:
  assumes "map shape cs = map shape cs0"
  shows "map nonHtmlCursor cs = map nonHtmlCursor cs0"
proof -
  have "map nonHtmlCursor cs = map snd (map shape cs)"
    by (simp add: shape_def)
  also have "\<dots> = map snd (map shape cs0)"
    using assms by simp
  also have "\<dots> = map nonHtmlCursor cs0"
    by (simp add: shape_def)
  finally show ?thesis .
qed

lemma restored_transforms:
  assumes "map shape cs = map shape cs0"
  shows "map inlineTransform
           (map (\<lambda>p. if isHTMLElement (snd p)
                      then (snd p)\<lparr>styleTransform :=
                               arrayGet (map (\<lambda>c. noneToEmpty (computedTransform c)) cs0) (fst p),
                             styleTransition :=
                               arrayGet (map (\<lambda>c. noneToEmpty (computedTransition c)) cs0) (fst p)\<rparr>
                      else snd p)
                (enumerate 0 cs)) =
         map capturedTransform cs0"
proof (rule nth_equalityI)
  from assms have len: "length cs = length cs0" by (rule map_eq_imp_length_eq)
  then show "length (map inlineTransform
           (map (\<lambda>p. if isHTMLElement (snd p)
                      then (snd p)\<lparr>styleTransform :=
                               arrayGet (map (\<lambda>c. noneToEmpty (computedTransform c)) cs0) (fst p),
                             styleTransition :=
                               arrayGet (map (\<lambda>c. noneToEmpty (computedTransition c)) cs0) (fst p)\<rparr>
                      else snd p)
                (enumerate 0 cs))) = length (map capturedTransform cs0)"
    by simp
  fix i
  assume "i < length (map inlineTransform
           (map (\<lambda>p. if isHTMLElement (snd p)
                      then (snd p)\<lparr>styleTransform :=
                               arrayGet (map (\<lambda>c. noneToEmpty (computedTransform c)) cs0) (fst p),
                             styleTransition :=
                               arrayGet (map (\<lambda>c. noneToEmpty (computedTransition c)) cs0) (fst p)\<rparr>
                      else snd p)
                (enumerate 0 cs)))"
  then have i: "i < length cs" by simp
  from shape_nth [OF assms i] i
  show "map inlineTransform
           (map (\<lambda>p. if isHTMLElement (snd p)
                      then (snd p)\<lparr>styleTransform :=
                               arrayGet (map (\<lambda>c. noneToEmpty (computedTransform c)) cs0) (fst p),
                             styleTransition :=
                               arrayGet (map (\<lambda>c. noneToEmpty (computedTransition c)) cs0) (fst p)\<rparr>
                      else snd p)
                (enumerate 0 cs)) ! i = map capturedTransform cs0 ! i"
    by (simp add: nth_enumerate_eq arrayGet_def inlineTransform_def capturedTransform_def
        shape_def)
qed

lemma restored_cursors:
  assumes "map shape cs = map shape cs0"
  shows "map (styleCursor \<circ> restoreChildCursor (Some (map computedCursor cs0)))
           (enumerate 0 (map (clickListener_update f) cs)) =
         map cursorAtMount cs0"
proof (rule nth_equalityI)
  from assms have len: "length cs = length cs0" by (rule map_eq_imp_length_eq)
  then show "length (map (styleCursor \<circ> restoreChildCursor (Some (map computedCursor cs0)))
           (enumerate 0 (map (clickListener_update f) cs))) = length (map cursorAtMount cs0)"
    by simp
  fix i
  assume "i < length (map (styleCursor \<circ> restoreChildCursor (Some (map computedCursor cs0)))
           (enumerate 0 (map (clickListener_update f) cs)))"
  then have i: "i < length cs" by simp
  from shape_nth [OF assms i] i
  show "map (styleCursor \<circ> restoreChildCursor (Some (map computedCursor cs0)))
           (enumerate 0 (map (clickListener_update f) cs)) ! i = map cursorAtMount cs0 ! i"
    by (auto simp add: nth_enumerate_eq arrayGet_def cursorAtMount_def
        restoreChildCursor_def shape_def nonHtmlCursor_def)
qed

lemma snapshot_mount: "isMounted opts \<Longrightarrow> snapshotOf el (mount opts (Some el))"
  by (simp add: snapshotOf_def sview_def mount_def useEffect_def useLayoutEffect_def
      initial_state_def)

lemma snapshot_dispatch:
  assumes "snapshotOf el st" and "keepsSnapshot el ev"
  shows "\<exists>st'. dispatch opts ev st = Inr st' \<and> snapshotOf el st'"
proof (cases ev)
  case (Fire h)
  from assms(1) have r: "retired st = []"
    by (simp add: snapshotOf_def sview_def)
  from assms(1) have "transformStyleOfChildElements st \<noteq> None"
    "transitionStyleOfChildElements st \<noteq> None"
    by (simp_all add: snapshotOf_def sview_def)
  then have "\<exists>st'. recoverChildStyle (clearTimer (Some h) st) = Inr st' \<and>
      sview st' = sview (clearTimer (Some h) st)"
    by (intro sview_recoverChildStyle) (simp_all add: clearTimer_def)
  with Fire assms(1) r show ?thesis
    by (auto simp add: dispatch_def snapshotOf_def split: option.splits timer.splits)
next
  case (Host r)
  with assms show ?thesis
    by (auto simp add: keepsSnapshot_def dispatch_def snapshotOf_def sview_def
        split: option.splits)
next
  case (SetMounted b)
  with assms(2) show ?thesis
    by (simp add: keepsSnapshot_def)
qed (use assms(1) in \<open>simp_all add: dispatch_def snapshotOf_def\<close>)

lemma snapshot_run:
  "snapshotOf el st \<Longrightarrow> list_all (keepsSnapshot el) evs \<Longrightarrow>
   \<exists>st'. run opts evs st = Inr st' \<and> snapshotOf el st'"
proof (induction evs arbitrary: st)
  case Nil
  then show ?case by simp
next
  case (Cons ev evs)
  from Cons.prems(2) have h: "keepsSnapshot el ev" "list_all (keepsSnapshot el) evs"
    by simp_all
  from snapshot_dispatch [OF Cons.prems(1) h(1), of opts]
  obtain st1 where st1: "dispatch opts ev st = Inr st1" "snapshotOf el st1" by blast
  from Cons.IH [OF st1(2) h(2)] st1(1) show ?case by simp
qed

lemma snapshot_fire:
  assumes "snapshotOf el st" and "map_of (timers st) h = Some SnapBack"
  shows "\<exists>st' el'. dispatch opts (Fire h) st = Inr st' \<and> ref_current st' = Some el' \<and>
           map inlineTransform (childNodes el') = map capturedTransform (childNodes el)"
proof -
  from assms(1) obtain e where e: "ref_current st = Some e"
    "map shape (childNodes e) = map shape (childNodes el)"
    "transformStyleOfChildElements st =
       Some (map (\<lambda>c. noneToEmpty (computedTransform c)) (childNodes el))"
    "transitionStyleOfChildElements st =
       Some (map (\<lambda>c. noneToEmpty (computedTransition c)) (childNodes el))"
    "retired st = []"
    by (auto simp add: snapshotOf_def sview_def)
  with assms(2) restored_transforms [OF e(2)] show ?thesis
    by (simp add: dispatch_def recoverChildStyle_def clearTimer_def recoverChildren_Some
        seenBy_def leftBy_def)
qed

lemma snapshot_up:
  assumes "snapshotOf el st"
  shows "\<exists>e st' el'. ref_current st = Some e \<and>
           map nonHtmlCursor (childNodes e) = map nonHtmlCursor (childNodes el) \<and>
           dispatch opts (MouseUp x y) st = Inr st' \<and> ref_current st' = Some el' \<and>
           elStyleCursor el' = Css (elComputedCursor el) \<and>
           map styleCursor (childNodes el') = map cursorAtMount (childNodes el)"
proof -
  from assms obtain e where e: "ref_current st = Some e"
    "map shape (childNodes e) = map shape (childNodes el)"
    "cursorStyleOfWrapperElement st = Some (elComputedCursor el)"
    "cursorStyleOfChildElements st = Some (map computedCursor (childNodes el))"
    "listening st"
    by (auto simp add: snapshotOf_def sview_def)
  from e(2) have n: "map nonHtmlCursor (childNodes e) = map nonHtmlCursor (childNodes el)"
    by (rule nonHtmlCursor_of_shape)
  have c: "styleCursor \<circ> ((\<lambda>c. c\<lparr>styleTransform := t, styleTransition := u\<rparr>) \<circ> g) =
      styleCursor \<circ> g"
    for t u and g :: "nat \<times> child \<Rightarrow> child"
    by (rule ext) simp
  from e n restored_cursors [OF e(2)] show ?thesis
    by (simp add: dispatch_def onMouseUp_def callbackMomentum_def setTimer_def Let_def optCss_def
        c)
qed

lemma keepsSnapshot_keepsEffects:
  "list_all (keepsSnapshot el) evs \<Longrightarrow> list_all keepsEffects evs"
  by (induction evs) (auto simp add: keepsSnapshot_def keepsEffects_def split: event.splits)

section \<open>C1: the live-scroll applier\<close>

text \<open>
  Claim C1. A call of \<open>runScroll\<close> with the container reference absent changes nothing. With
  the container present, the container's scroll offset on each axis after the call is the
  offset before the call plus the axis's \<open>scrollSpeed\<close> times the tick period \<open>timing\<close>
  (1000/60 ms), and \<open>lastScrollX\<close>, \<open>lastScrollY\<close> hold the offsets that were written. (The
  container is a store here: what the platform does to an offset it is given, such as
  clamping it to the scroll range, happens outside the hook.)
\<close>

theorem runScroll_adds_speed_times_period:
  "(ref_current st = None \<longrightarrow> runScroll st = st) \<and>
   (\<forall>el. ref_current st = Some el \<longrightarrow>
      (\<exists>el'. ref_current (runScroll st) = Some el' \<and>
         scrollLeft el' = scrollLeft el + scrollSpeedX st * timing \<and>
         scrollTop el' = scrollTop el + scrollSpeedY st * timing \<and>
         lastScrollX (runScroll st) = scrollLeft el' \<and>
         lastScrollY (runScroll st) = scrollTop el'))"
  by (simp add: runScroll_def Let_def)

theorem runScroll_adds_speed_times_period_witness:
  "runScroll (initial_state None) = initial_state None \<and>
   (\<exists>el'. ref_current (runScroll ((initial_state (Some scroll_box))
                \<lparr>scrollSpeedX := 3, scrollSpeedY := 6 / 5\<rparr>)) = Some el' \<and>
      scrollLeft el' = 200 \<and> scrollTop el' = 20 \<and>
      lastScrollX (runScroll ((initial_state (Some scroll_box))
                \<lparr>scrollSpeedX := 3, scrollSpeedY := 6 / 5\<rparr>)) = 200 \<and>
      lastScrollY (runScroll ((initial_state (Some scroll_box))
                \<lparr>scrollSpeedX := 3, scrollSpeedY := 6 / 5\<rparr>)) = 20)"
  using runScroll_adds_speed_times_period [of "initial_state None"]
    runScroll_adds_speed_times_period
      [of "(initial_state (Some scroll_box))\<lparr>scrollSpeedX := 3, scrollSpeedY := 6 / 5\<rparr>"]
  by (simp add: runScroll_def Let_def initial_state_def scroll_box_def timing_def)

section \<open>C2: drag confirmation at pointer-up\<close>

text \<open>
  Claim C2, as amended. A pointer-up with the container reference absent does nothing. With
  the container present, \<open>preventClick\<close> is registered on every child and the momentum
  engine is started (the two intervals are created, and the snap-back timeout with the
  rubber band enabled) if and only if \<open>isDraggingX\<close> or \<open>isDraggingY\<close> holds and the absolute
  displacement from \<open>initialMouseX/Y\<close> on at least one axis exceeds \<open>safeDisplacement\<close>
  (10 by default); otherwise no timer is created and the listener is removed from every
  child.
\<close>

theorem onMouseUp_confirmation:
  "(ref_current st = None \<longrightarrow> onMouseUp opts st x y = st) \<and>
   (\<forall>el. ref_current st = Some el \<longrightarrow>
      (\<exists>el'. ref_current (onMouseUp opts st x y) = Some el' \<and>
         map clickListener (childNodes el') =
           replicate (length (childNodes el))
             ((isDraggingX st \<or> isDraggingY st) \<and>
              (\<bar>initialMouseX st - x\<bar> > safeDisplacement opts \<or>
               \<bar>initialMouseY st - y\<bar> > safeDisplacement opts)) \<and>
         timers (onMouseUp opts st x y) =
           timers st @
           (if (isDraggingX st \<or> isDraggingY st) \<and>
               (\<bar>initialMouseX st - x\<bar> > safeDisplacement opts \<or>
                \<bar>initialMouseY st - y\<bar> > safeDisplacement opts)
            then (nextTimer st, MomentumX) # (Suc (nextTimer st), MomentumY) #
                 (if applyRubberBandEffect opts then [(Suc (Suc (nextTimer st)), SnapBack)]
                  else [])
            else []))) \<and>
   safeDisplacement default_options = 10"
  by (simp add: onMouseUp_def isDraggingConfirmed_def callbackMomentum_def setTimer_def
      Let_def clickListener_after_up clickListener_after_snap default_options_def)

theorem onMouseUp_confirmation_witness:
  "onMouseUp default_options (initial_state None) 50 0 = initial_state None \<and>
   (\<exists>el'. ref_current (onMouseUp default_options
              ((initial_state (Some scroll_box))\<lparr>isDraggingX := True, initialMouseX := 100\<rparr>)
              50 0) = Some el' \<and>
      map clickListener (childNodes el') = [True, True]) \<and>
   timers (onMouseUp default_options
              ((initial_state (Some scroll_box))\<lparr>isDraggingX := True, initialMouseX := 100\<rparr>)
              50 0) = [(1, MomentumX), (2, MomentumY)] \<and>
   (\<exists>el'. ref_current (onMouseUp default_options
              ((initial_state (Some scroll_box))\<lparr>isDraggingX := True, initialMouseX := 100\<rparr>)
              95 0) = Some el' \<and>
      map clickListener (childNodes el') = [False, False]) \<and>
   timers (onMouseUp default_options
              ((initial_state (Some scroll_box))\<lparr>isDraggingX := True, initialMouseX := 100\<rparr>)
              95 0) = []"
  using onMouseUp_confirmation [of "initial_state None" default_options 50 0]
    onMouseUp_confirmation
      [of "(initial_state (Some scroll_box))\<lparr>isDraggingX := True, initialMouseX := 100\<rparr>"
          default_options 50 0]
    onMouseUp_confirmation
      [of "(initial_state (Some scroll_box))\<lparr>isDraggingX := True, initialMouseX := 100\<rparr>"
          default_options 95 0]
  by (auto simp add: example_defs)

text \<open>
  The claim as stated, for every pointer-up event, fails when the container reference is
  absent: after a press and a move the container is unmounted; the pointer-up then finds
  \<open>isDraggingX\<close> set and a displacement of 50, and starts nothing.
\<close>

theorem onMouseUp_absent_counterexample:
  "\<not> isl unmounted_mid_drag \<and>
   ref_current (projr unmounted_mid_drag) = None \<and>
   isDraggingX (projr unmounted_mid_drag) \<and>
   \<bar>initialMouseX (projr unmounted_mid_drag) - 50\<bar> > safeDisplacement default_options \<and>
   dispatch default_options (MouseUp 50 0) (projr unmounted_mid_drag) =
     Inr (projr unmounted_mid_drag) \<and>
   timers (onMouseUp default_options (projr unmounted_mid_drag) 50 0) = []"
  by (simp add: unmounted_mid_drag_def handler_defs example_defs)

section \<open>C3: decay and termination of the momentum loop\<close>

text \<open>
  Claim C3, as amended. For every initial speed \<open>s\<close> and decay rate \<open>r\<close> with \<open>0 < r < 1\<close>
  there is a bound \<open>N\<close> such that, for the loop of either axis that is running under a handle
  \<open>h\<close> with speed \<open>s\<close> (the container is present and the axis's variable names the live
  interval, which is how \<open>callbackMomentum\<close> leaves both loops,
  \<open>callbackMomentum_starts_loops\<close>):
  \<^item> when the ticks of the loop follow one another, the speed after \<open>n\<close> ticks is \<open>s * r ^ n\<close>
    as long as no stopping condition has fired (the interval is still live), and the loop
    ends within \<open>N\<close> ticks, with the interval cleared and the speed at 0;
  \<^item> when other timers (the ticks of the other axis, the snap-back timeout) and resizes come
    between the ticks of the loop, and the loop glides (it is the only live interval of its
    axis, which is how \<open>callbackMomentum\<close> leaves both loops when no interval was live,
    \<open>callbackMomentum_starts_gliding\<close>), the speed after the \<open>n\<close>-th tick of the loop is
    \<open>s * r ^ n\<close> as long as the interval is live, and once the loop has ticked \<open>N\<close> times the
    interval is cleared and the speed is 0.

  The bound is any \<open>N\<close> past the first \<open>n\<close> with \<open>|s| * r ^ n < 0.05\<close>; an edge or a press
  ends the loop earlier. Pointer events, changes of the container by the host and renders
  while the loop runs are left out, and so is a loop whose handle the axis's variable does
  not hold. Speeds are reals here.
\<close>

theorem momentum_loop_decays_and_terminates:
  assumes "0 < r" and "r < 1"
  shows "\<exists>N. \<forall>(opts::options) st h. decayRate opts = r \<longrightarrow>
           (runningX st h \<and> scrollSpeedX st = s \<longrightarrow>
              (\<forall>n. liveInterval (ticks opts h n st) h \<longrightarrow>
                    scrollSpeedX (ticks opts h n st) = s * r ^ n) \<and>
              (\<exists>st'. momentumLoop opts h N st = Some st' \<and> scrollSpeedX st' = 0 \<and>
                     \<not> liveInterval st' h)) \<and>
           (runningY st h \<and> scrollSpeedY st = s \<longrightarrow>
              (\<forall>n. liveInterval (ticks opts h n st) h \<longrightarrow>
                    scrollSpeedY (ticks opts h n st) = s * r ^ n) \<and>
              (\<exists>st'. momentumLoop opts h N st = Some st' \<and> scrollSpeedY st' = 0 \<and>
                     \<not> liveInterval st' h)) \<and>
           (glidingX st h \<and> scrollSpeedX st = s \<longrightarrow>
              (\<forall>evs. list_all besideLoop evs \<longrightarrow>
                 (liveInterval (finalState (run opts evs st)) h \<longrightarrow>
                    scrollSpeedX (finalState (run opts evs st)) =
                      s * r ^ count_list evs (Fire h)) \<and>
                 (N \<le> count_list evs (Fire h) \<longrightarrow>
                    \<not> liveInterval (finalState (run opts evs st)) h \<and>
                    scrollSpeedX (finalState (run opts evs st)) = 0))) \<and>
           (glidingY st h \<and> scrollSpeedY st = s \<longrightarrow>
              (\<forall>evs. list_all besideLoop evs \<longrightarrow>
                 (liveInterval (finalState (run opts evs st)) h \<longrightarrow>
                    scrollSpeedY (finalState (run opts evs st)) =
                      s * r ^ count_list evs (Fire h)) \<and>
                 (N \<le> count_list evs (Fire h) \<longrightarrow>
                    \<not> liveInterval (finalState (run opts evs st)) h \<and>
                    scrollSpeedY (finalState (run opts evs st)) = 0)))"
proof -
  from decay_reaches_threshold [OF assms, of s] obtain n where n: "\<bar>s\<bar> * r ^ n < 0.05" ..
  show ?thesis
  proof (intro exI [of _ "Suc n"] allI impI conjI)
    fix opts :: options and st h k
    assume "decayRate opts = r" "runningX st h \<and> scrollSpeedX st = s"
      "liveInterval (ticks opts h k st) h"
    then show "scrollSpeedX (ticks opts h k st) = s * r ^ k"
      using ticksX_speed [of st h opts k] by simp
  next
    fix opts :: options and st h
    assume "decayRate opts = r" "runningX st h \<and> scrollSpeedX st = s"
    then show "\<exists>st'. momentumLoop opts h (Suc n) st = Some st' \<and> scrollSpeedX st' = 0 \<and>
                     \<not> liveInterval st' h"
      using loopX_ends [of opts st h n] assms n by simp
  next
    fix opts :: options and st h k
    assume "decayRate opts = r" "runningY st h \<and> scrollSpeedY st = s"
      "liveInterval (ticks opts h k st) h"
    then show "scrollSpeedY (ticks opts h k st) = s * r ^ k"
      using ticksY_speed [of st h opts k] by simp
  next
    fix opts :: options and st h
    assume "decayRate opts = r" "runningY st h \<and> scrollSpeedY st = s"
    then show "\<exists>st'. momentumLoop opts h (Suc n) st = Some st' \<and> scrollSpeedY st' = 0 \<and>
                     \<not> liveInterval st' h"
      using loopY_ends [of opts st h n] assms n by simp
  next
    fix opts :: options and st h evs
    assume "decayRate opts = r" "glidingX st h \<and> scrollSpeedX st = s"
      "list_all besideLoop evs" "liveInterval (finalState (run opts evs st)) h"
    then show "scrollSpeedX (finalState (run opts evs st)) = s * r ^ count_list evs (Fire h)"
      using glideX_result [of opts st h evs n] assms n by simp
  next
    fix opts :: options and st h evs
    assume "decayRate opts = r" "glidingX st h \<and> scrollSpeedX st = s"
      "list_all besideLoop evs" "Suc n \<le> count_list evs (Fire h)"
    then show "\<not> liveInterval (finalState (run opts evs st)) h"
      using glideX_result [of opts st h evs n] assms n by simp
  next
    fix opts :: options and st h evs
    assume "decayRate opts = r" "glidingX st h \<and> scrollSpeedX st = s"
      "list_all besideLoop evs" "Suc n \<le> count_list evs (Fire h)"
    then show "scrollSpeedX (finalState (run opts evs st)) = 0"
      using glideX_result [of opts st h evs n] assms n by simp
  next
    fix opts :: options and st h evs
    assume "decayRate opts = r" "glidingY st h \<and> scrollSpeedY st = s"
      "list_all besideLoop evs" "liveInterval (finalState (run opts evs st)) h"
    then show "scrollSpeedY (finalState (run opts evs st)) = s * r ^ count_list evs (Fire h)"
      using glideY_result [of opts st h evs n] assms n by simp
  next
    fix opts :: options and st h evs
    assume "decayRate opts = r" "glidingY st h \<and> scrollSpeedY st = s"
      "list_all besideLoop evs" "Suc n \<le> count_list evs (Fire h)"
    then show "\<not> liveInterval (finalState (run opts evs st)) h"
      using glideY_result [of opts st h evs n] assms n by simp
  next
    fix opts :: options and st h evs
    assume "decayRate opts = r" "glidingY st h \<and> scrollSpeedY st = s"
      "list_all besideLoop evs" "Suc n \<le> count_list evs (Fire h)"
    then show "scrollSpeedY (finalState (run opts evs st)) = 0"
      using glideY_result [of opts st h evs n] assms n by simp
  qed
qed

theorem momentum_loop_decays_and_terminates_witness:
  "(0::real) < 19 / 20 \<and> (19 / 20 :: real) < 1 \<and>
   \<not> isl released_glide \<and>
   runningX (projr released_glide) 1 \<and> glidingX (projr released_glide) 1 \<and>
   scrollSpeedX (projr released_glide) = 3 / 5 \<and>
   liveInterval (ticks default_options 1 2 (projr released_glide)) 1 \<and>
   scrollSpeedX (ticks default_options 1 2 (projr released_glide)) = 3 / 5 * (19 / 20) ^ 2 \<and>
   list_all besideLoop [Fire 1, Fire 2, Resize, Fire 1] \<and>
   liveInterval
     (finalState (run default_options [Fire 1, Fire 2, Resize, Fire 1] (projr released_glide)))
     1 \<and>
   scrollSpeedX
     (finalState (run default_options [Fire 1, Fire 2, Resize, Fire 1] (projr released_glide))) =
     3 / 5 * (19 / 20) ^ 2 \<and>
   (\<exists>N. (\<exists>st'. momentumLoop default_options 1 N (projr released_glide) = Some st' \<and>
             scrollSpeedX st' = 0 \<and> \<not> liveInterval st' 1) \<and>
        \<not> liveInterval
            (finalState (run default_options (replicate N (Fire 1)) (projr released_glide))) 1 \<and>
        scrollSpeedX
          (finalState (run default_options (replicate N (Fire 1)) (projr released_glide))) = 0)"
proof -
  let ?st = "projr released_glide"
  have e: "\<not> isl released_glide \<and> runningX ?st 1 \<and> glidingX ?st 1 \<and>
      scrollSpeedX ?st = 3 / 5"
    by (simp add: released_glide_def handler_defs example_defs runningX_def glidingX_def)
  have l: "liveInterval (ticks default_options 1 2 ?st) 1"
    "liveInterval (finalState (run default_options [Fire 1, Fire 2, Resize, Fire 1] ?st)) 1"
    by (simp_all add: released_glide_def handler_defs example_defs liveInterval_def tick_def
        eval_nat_numeral)
  have b: "list_all besideLoop [Fire 1, Fire 2, Resize, Fire 1]"
    by (simp add: besideLoop_def)
  have r: "decayRate default_options = 19 / 20"
    by (simp add: default_options_def)
  have "(0::real) < 19 / 20" and "(19 / 20 :: real) < 1"
    by simp_all
  from momentum_loop_decays_and_terminates [OF this, of "3 / 5"]
  obtain N where N: "\<forall>(opts::options) st h. decayRate opts = 19 / 20 \<longrightarrow>
           (runningX st h \<and> scrollSpeedX st = 3 / 5 \<longrightarrow>
              (\<forall>n. liveInterval (ticks opts h n st) h \<longrightarrow>
                    scrollSpeedX (ticks opts h n st) = 3 / 5 * (19 / 20) ^ n) \<and>
              (\<exists>st'. momentumLoop opts h N st = Some st' \<and> scrollSpeedX st' = 0 \<and>
                     \<not> liveInterval st' h)) \<and>
           (runningY st h \<and> scrollSpeedY st = 3 / 5 \<longrightarrow>
              (\<forall>n. liveInterval (ticks opts h n st) h \<longrightarrow>
                    scrollSpeedY (ticks opts h n st) = 3 / 5 * (19 / 20) ^ n) \<and>
              (\<exists>st'. momentumLoop opts h N st = Some st' \<and> scrollSpeedY st' = 0 \<and>
                     \<not> liveInterval st' h)) \<and>
           (glidingX st h \<and> scrollSpeedX st = 3 / 5 \<longrightarrow>
              (\<forall>evs. list_all besideLoop evs \<longrightarrow>
                 (liveInterval (finalState (run opts evs st)) h \<longrightarrow>
                    scrollSpeedX (finalState (run opts evs st)) =
                      3 / 5 * (19 / 20) ^ count_list evs (Fire h)) \<and>
                 (N \<le> count_list evs (Fire h) \<longrightarrow>
                    \<not> liveInterval (finalState (run opts evs st)) h \<and>
                    scrollSpeedX (finalState (run opts evs st)) = 0))) \<and>
           (glidingY st h \<and> scrollSpeedY st = 3 / 5 \<longrightarrow>
              (\<forall>evs. list_all besideLoop evs \<longrightarrow>
                 (liveInterval (finalState (run opts evs st)) h \<longrightarrow>
                    scrollSpeedY (finalState (run opts evs st)) =
                      3 / 5 * (19 / 20) ^ count_list evs (Fire h)) \<and>
                 (N \<le> count_list evs (Fire h) \<longrightarrow>
                    \<not> liveInterval (finalState (run opts evs st)) h \<and>
                    scrollSpeedY (finalState (run opts evs st)) = 0)))" ..
  from N r e have
    a1: "\<forall>n. liveInterval (ticks default_options 1 n ?st) 1 \<longrightarrow>
           scrollSpeedX (ticks default_options 1 n ?st) = 3 / 5 * (19 / 20) ^ n"
    and a2: "\<exists>st'. momentumLoop default_options 1 N ?st = Some st' \<and> scrollSpeedX st' = 0 \<and>
                     \<not> liveInterval st' 1"
    and a3: "\<forall>evs. list_all besideLoop evs \<longrightarrow>
                 (liveInterval (finalState (run default_options evs ?st)) 1 \<longrightarrow>
                    scrollSpeedX (finalState (run default_options evs ?st)) =
                      3 / 5 * (19 / 20) ^ count_list evs (Fire 1)) \<and>
                 (N \<le> count_list evs (Fire 1) \<longrightarrow>
                    \<not> liveInterval (finalState (run default_options evs ?st)) 1 \<and>
                    scrollSpeedX (finalState (run default_options evs ?st)) = 0)"
    by blast+
  from a1 l(1) have c1: "scrollSpeedX (ticks default_options 1 2 ?st) = 3 / 5 * (19 / 20) ^ 2"
    by blast
  have "count_list [Fire 1, Fire 2, Resize, Fire 1] (Fire 1) = 2"
    by simp
  with a3 b l(2) have c2: "scrollSpeedX
      (finalState (run default_options [Fire 1, Fire 2, Resize, Fire 1] ?st)) =
      3 / 5 * (19 / 20) ^ 2"
    by metis
  have "list_all besideLoop (replicate N (Fire 1))"
    "count_list (replicate N (Fire 1)) (Fire 1) = N"
    by (induction N) (simp_all add: besideLoop_def)
  with a3 have c3: "\<not> liveInterval
      (finalState (run default_options (replicate N (Fire 1)) ?st)) 1 \<and>
      scrollSpeedX (finalState (run default_options (replicate N (Fire 1)) ?st)) = 0"
    by (metis order_refl)
  from e l b a2 c1 c2 c3 show ?thesis
    by (intro conjI exI [of _ N]) simp_all
qed

text \<open>
  The claim as stated speaks of every momentum loop. When the container is unmounted during
  the glide, the ticks return at once: after two ticks the interval is live and the speed
  is still 3/5, not \<open>3/5 * (19/20)\<^sup>2\<close>, and the loop has not ended after 100 ticks, although
  \<open>3/5 * (19/20) ^ 49\<close> is below 0.05.
\<close>

theorem momentum_loop_absent_container_counterexample:
  "\<not> isl detached_glide \<and>
   ref_current (projr detached_glide) = None \<and>
   liveInterval (projr detached_glide) 1 \<and>
   scrollSpeedX (projr detached_glide) = 3 / 5 \<and>
   liveInterval (ticks default_options 1 2 (projr detached_glide)) 1 \<and>
   scrollSpeedX (ticks default_options 1 2 (projr detached_glide)) \<noteq> 3 / 5 * (19 / 20) ^ 2 \<and>
   momentumLoop default_options 1 100 (projr detached_glide) = None"
proof -
  have "\<not> isl detached_glide \<and> ref_current (projr detached_glide) = None \<and>
      liveInterval (projr detached_glide) 1 \<and> scrollSpeedX (projr detached_glide) = 3 / 5"
    by (simp add: detached_glide_def handler_defs example_defs liveInterval_def)
  then show ?thesis
    by (simp add: ticks_absent momentumLoop_absent power2_eq_square)
qed

text \<open>
  What the amended claim leaves out: a loop that has been overtaken. When a second drag is
  released before the loops of the first have ticked, \<open>callbackMomentum\<close> assigns the new
  handles to \<open>keepMovingX\<close> and \<open>keepMovingY\<close> and does not clear the old intervals. The
  stopping branch of an old interval then clears the interval that the variable names, the
  new one, and never itself: the old interval stays live whatever the speed
  (\<open>overtaken_loop_never_ends\<close>).
\<close>

theorem overtaken_loop_example:
  "\<not> isl overtaken_glide \<and>
   ref_current (projr overtaken_glide) \<noteq> None \<and>
   timers (projr overtaken_glide) =
     [(1, MomentumX), (2, MomentumY), (3, MomentumX), (4, MomentumY)] \<and>
   keepMovingX (projr overtaken_glide) = Some 3 \<and>
   keepMovingY (projr overtaken_glide) = Some 4 \<and>
   momentumLoop default_options 1 100 (projr overtaken_glide) = None \<and>
   momentumLoop default_options 2 100 (projr overtaken_glide) = None"
proof -
  have a: "\<not> isl overtaken_glide \<and>
   ref_current (projr overtaken_glide) \<noteq> None \<and>
   timers (projr overtaken_glide) =
     [(1, MomentumX), (2, MomentumY), (3, MomentumX), (4, MomentumY)] \<and>
   keepMovingX (projr overtaken_glide) = Some 3 \<and>
   keepMovingY (projr overtaken_glide) = Some 4 \<and> retired (projr overtaken_glide) = []"
    by (simp add: overtaken_glide_def handler_defs example_defs)
  then have "momentumLoop default_options 1 100 (projr overtaken_glide) = None"
    "momentumLoop default_options 2 100 (projr overtaken_glide) = None"
    by (simp_all add: overtaken_loop_never_ends)
  with a show ?thesis by simp
qed


section \<open>C4: when a momentum tick stops its axis\<close>

text \<open>
  Claim C4, as amended. On a momentum tick of an axis with the container reference present,
  the axis stops (its \<open>scrollSpeed\<close> is set to 0 and the interval that \<open>keepMovingX\<close>, or
  \<open>keepMovingY\<close>, names is cleared) exactly when the decayed speed is below 0.05 in absolute
  value, or the pointer is pressed, or the offset read before the tick's scroll write is at
  most 0 or at least the axis's maximum; the edge test of the tick does not ask whether the
  axis is scrollable. Otherwise the speed becomes the decayed speed and no timer is cleared.
  The test of an axis reads that axis's speed, offset and maximum and the shared
  \<open>isMouseDown\<close> only, and a tick of one axis leaves the other axis's speed alone. (A tick
  without a container does nothing at all: C10.)
\<close>

theorem momentum_tick_stop_condition:
  assumes "ref_current st = Some el"
  shows
    "(if \<bar>scrollSpeedX st * decayRate opts\<bar> < 0.05 \<or> isMouseDown st \<or>
         scrollLeft el \<le> 0 \<or> scrollLeft el \<ge> maxHorizontalScroll st
      then scrollSpeedX (keepMovingX_tick opts st) = 0 \<and>
           timers (keepMovingX_tick opts st) = timers (clearTimer (keepMovingX st) st)
      else scrollSpeedX (keepMovingX_tick opts st) = scrollSpeedX st * decayRate opts \<and>
           timers (keepMovingX_tick opts st) = timers st) \<and>
     (if \<bar>scrollSpeedY st * decayRate opts\<bar> < 0.05 \<or> isMouseDown st \<or>
         scrollTop el \<le> 0 \<or> scrollTop el \<ge> maxVerticalScroll st
      then scrollSpeedY (keepMovingY_tick opts st) = 0 \<and>
           timers (keepMovingY_tick opts st) = timers (clearTimer (keepMovingY st) st)
      else scrollSpeedY (keepMovingY_tick opts st) = scrollSpeedY st * decayRate opts \<and>
           timers (keepMovingY_tick opts st) = timers st) \<and>
     scrollSpeedY (keepMovingX_tick opts st) = scrollSpeedY st \<and>
     scrollSpeedX (keepMovingY_tick opts st) = scrollSpeedX st"
  using assms
  by (simp add: keepMovingX_tick_def keepMovingY_tick_def runScroll_def clearTimer_def
      minimumSpeedToTriggerMomentum_def Let_def split: option.splits)

theorem momentum_tick_stop_condition_witness:
  "scrollSpeedX (keepMovingX_tick default_options gliding) = 19 / 10 \<and>
   timers (keepMovingX_tick default_options gliding) = [(1, MomentumX), (2, MomentumY)] \<and>
   scrollSpeedY (keepMovingY_tick default_options gliding) = 0 \<and>
   timers (keepMovingY_tick default_options gliding) = [(1, MomentumX)]"
  using momentum_tick_stop_condition [of gliding scroll_box default_options]
  by (simp add: gliding_def example_defs clearTimer_def)

text \<open>
  The claim as stated makes the edge depend on the axis being scrollable. With
  \<open>overflow-x: auto\<close> the hook does not count the axis as scrollable; a drag of 50 from
  offset 150 ends at the maximum 200, and the first tick after the release stops the axis
  although the specification's condition does not hold there.
\<close>

theorem momentum_tick_stop_condition_counterexample:
  "\<not> isl released_at_right_edge \<and>
   ref_current (projr released_at_right_edge) \<noteq> None \<and>
   map_of (timers (projr released_at_right_edge)) 1 = Some MomentumX \<and>
   \<not> stops_spec
       (scrollSpeedX (projr released_at_right_edge) * decayRate default_options)
       (isMouseDown (projr released_at_right_edge))
       (isScrollableAlongX (projr released_at_right_edge))
       (scrollLeft (the (ref_current (projr released_at_right_edge))))
       (maxHorizontalScroll (projr released_at_right_edge)) \<and>
   scrollSpeedX (keepMovingX_tick default_options (projr released_at_right_edge)) = 0 \<and>
   map_of (timers (keepMovingX_tick default_options (projr released_at_right_edge))) 1 = None"
  by (simp add: released_at_right_edge_def handler_defs example_defs stops_spec_def
      isAtEdge_spec_def)

section \<open>C5: the rubber-band displacement\<close>

text \<open>
  Claim C5. For every pointer delta and every container size, the displacement that
  \<open>rubberBandCallback\<close> computes for a scrollable axis is
  \<open>0.3 * size * sign(delta) * log10(1 + 0.5 * |delta| / size)\<close>, with \<open>size\<close> the container's
  visible extent on that axis and \<open>delta\<close> the pointer position minus the position at press,
  and an axis that is not scrollable contributes 0 whatever its delta. The three-way branch of
  the source is the per-axis formula of the specification; the callback writes the result
  into the transform of every child that is an HTMLElement.
\<close>

theorem rubberBand_displacement_per_axis:
  "rubberBandDisplacement sx sy cw ch dx dy =
     (displacement_spec sx cw dx, displacement_spec sy ch dy) \<and>
   (\<forall>el. ref_current st = Some el \<longrightarrow>
      (\<exists>el'. ref_current (rubberBandCallback st x y) = Some el' \<and>
         childNodes el' =
           map (\<lambda>c. if isHTMLElement c
                     then c\<lparr>styleTransform :=
                              Translate3d
                                (displacement_spec (isScrollableAlongX st) (clientWidth el)
                                   (x - initialMouseX st))
                                (displacement_spec (isScrollableAlongY st) (clientHeight el)
                                   (y - initialMouseY st)),
                            styleTransition := Css ''transform 0ms''\<rparr>
                     else c)
               (childNodes el)))"
  by (simp add: rubberBandDisplacement_def rubberBandTerm_def displacement_spec_def
      rubberBandCallback_def Let_def)

theorem rubberBand_displacement_per_axis_witness:
  "rubberBandDisplacement True False 100 50 50 7 = (Num (30 * log 10 (5 / 4)), Num 0) \<and>
   rubberBandDisplacement True True 100 0 (- 50) 7 = (Num (- 30 * log 10 (5 / 4)), NaN) \<and>
   (\<exists>el'. ref_current (rubberBandCallback
              ((initial_state (Some svg_box))\<lparr>isScrollableAlongX := True, initialMouseX := 100\<rparr>)
              150 7) = Some el' \<and>
      map styleTransform (childNodes el') =
        [Translate3d (Num (30 * log 10 (5 / 4))) (Num 0), Css []])"
  using rubberBand_displacement_per_axis [of True False 100 50 50 7 "initial_state None"]
    rubberBand_displacement_per_axis [of True True 100 0 "- 50" 7 "initial_state None"]
    rubberBand_displacement_per_axis [of True True 100 0 "- 50" 7
      "(initial_state (Some svg_box))\<lparr>isScrollableAlongX := True, initialMouseX := 100\<rparr>" 150 7]
  by (auto simp add: displacement_spec_def example_defs)

section \<open>C6: the snap-back restores the children's transform and transition\<close>

text \<open>
  Claim C6. After a full interaction with the rubber band enabled (press, drag past an edge,
  confirmed release, the 250 ms timeout firing) every child's transform and transition are
  to be the values captured at mount. The code does not achieve this for a child that is
  not an HTMLElement: \<open>callbackMomentum\<close> writes the snap-back transform and transition to
  every child (lines 227-232), while \<open>recoverChildStyle\<close> (line 157), like
  \<open>rubberBandCallback\<close> (line 144), writes only the children that pass
  \<open>instanceof HTMLElement\<close>. On the container with a \<open>div\<close> and an SVG element, scrolled to
  the left edge, both children start with an empty inline transform and transition and the
  snapshot holds the empty transform and \<open>all 0s ease 0s\<close> for both. After the press at 100,
  the move to 150, the release and the timeout, the \<open>div\<close> has the captured values and the
  SVG element is left with \<open>translate3d(0px, 0px, 0px)\<close> and \<open>transform 250ms\<close>.
\<close>

theorem snap_back_leaves_other_elements_styled:
  "map styleTransform (childNodes svg_edge_box) = [Css [], Css []] \<and>
   map styleTransition (childNodes svg_edge_box) = [Css [], Css []] \<and>
   map isHTMLElement (childNodes svg_edge_box) = [True, False] \<and>
   \<not> isl snapped_back_svg \<and>
   ref_current (projr snapped_back_svg) \<noteq> None \<and>
   timers (projr snapped_back_svg) = [(1, MomentumX), (2, MomentumY)] \<and>
   transformStyleOfChildElements (projr snapped_back_svg) = Some [[], []] \<and>
   transitionStyleOfChildElements (projr snapped_back_svg) =
     Some [''all 0s ease 0s'', ''all 0s ease 0s''] \<and>
   map styleTransform (childNodes (the (ref_current (projr snapped_back_svg)))) =
     [Css [], Css ''translate3d(0px, 0px, 0px)''] \<and>
   map styleTransition (childNodes (the (ref_current (projr snapped_back_svg)))) =
     [Css ''all 0s ease 0s'', Css ''transform 250ms'']"
  by (simp add: snapped_back_svg_def handler_defs example_defs rubberBandTerm_def)

text \<open>
  For the children that are HTMLElements the restoration is complete. Mount the hook with
  \<open>isMounted\<close> true on a container and let any pointer events, resizes and timers follow,
  the host leaving a container in place whose children are HTMLElements or not as at mount: no handler raises an exception, a confirmed
  release with the rubber band enabled sets the snap-back timeout, and when a snap-back
  timeout fires every child that is an HTMLElement has exactly the transform and transition
  captured at mount, a computed \<open>none\<close> captured as the empty string.
\<close>

lemma snap_back_restores_HTMLElements:
  assumes "isMounted opts" and "list_all (keepsSnapshot el) evs"
  shows "\<exists>st. run opts evs (mount opts (Some el)) = Inr st \<and>
           (\<forall>x y. applyRubberBandEffect opts \<and> isDraggingConfirmed opts st x y \<longrightarrow>
              (\<exists>st1. dispatch opts (MouseUp x y) st = Inr st1 \<and>
                 map_of (timers st1) (Suc (Suc (nextTimer st))) = Some SnapBack)) \<and>
           (\<forall>h. map_of (timers st) h = Some SnapBack \<longrightarrow>
              (\<exists>st' el'. dispatch opts (Fire h) st = Inr st' \<and> ref_current st' = Some el' \<and>
                 map inlineTransform (childNodes el') = map capturedTransform (childNodes el)))"
proof -
  have "\<exists>st. run opts evs (mount opts (Some el)) = Inr st \<and> snapshotOf el st"
    by (rule snapshot_run [OF snapshot_mount [OF assms(1)] assms(2)])
  then obtain st where st: "run opts evs (mount opts (Some el)) = Inr st" "snapshotOf el st"
    by blast
  have "wf (finalState (run opts evs (mount opts (Some el))))"
    by (rule wf_run [OF wf_mount keepsSnapshot_keepsEffects [OF assms(2)]])
  with st(1) have w: "wf st"
    by (simp add: finalState_def)
  from st(2) have p: "ref_current st \<noteq> None" "listening st"
    by (auto simp add: snapshotOf_def sview_def)
  from confirmed_release_sets_snap_back [OF w p, of opts] snapshot_fire [OF st(2), of _ opts]
    st(1)
  show ?thesis by blast
qed

lemma snap_back_restores_HTMLElements_example:
  "\<exists>st e st' el'.
      run rubber_options [MouseDown 1 100 0, MouseMove 150 0]
        (mount rubber_options (Some edge_box)) = Inr st \<and>
      ref_current st = Some e \<and>
      map styleTransform (childNodes e) =
        [Translate3d (Num (30 * log 10 (5 / 4))) (Num 0),
         Translate3d (Num (30 * log 10 (5 / 4))) (Num 0)] \<and>
      run rubber_options [MouseUp 150 0, Fire 3] st = Inr st' \<and>
      ref_current st' = Some el' \<and>
      map inlineTransform (childNodes el') =
        [Some (Css [], Css ''all 0s ease 0s''),
         Some (Css ''matrix(0, 1, -1, 0, 0, 0)'', Css ''all 0s ease 0s'')]"
  by (simp add: handler_defs example_defs rubberBandTerm_def inlineTransform_def)

section \<open>C7: pointer-up restores the cursors\<close>

text \<open>
  Claim C7, as amended. Mount the hook with \<open>isMounted\<close> true on a container that is present,
  so that the layout effect captures the cursors, and let any pointer events, resizes and
  timers follow, the host leaving a container in place whose children are HTMLElements or
  not as at mount, and not itself changing the inline cursor of those that are not. The hook
  never writes the inline cursor of a child that is not an HTMLElement: it is what it was at
  mount, also during a drag. After a pointer-up, confirmed or not, the inline cursor of
  the container is its computed cursor captured at mount, the inline cursor of every child
  that is an HTMLElement is the child's computed cursor captured at mount, which undoes the
  \<open>grabbing\<close> cursor of the pointer moves, and the inline cursor of every other child is the
  one it had at mount.
\<close>

theorem pointer_up_restores_cursors:
  assumes "isMounted opts" and "list_all (keepsSnapshot el) evs"
  shows "\<exists>st e st' el'. run opts evs (mount opts (Some el)) = Inr st \<and>
           ref_current st = Some e \<and>
           map nonHtmlCursor (childNodes e) = map nonHtmlCursor (childNodes el) \<and>
           dispatch opts (MouseUp x y) st = Inr st' \<and> ref_current st' = Some el' \<and>
           elStyleCursor el' = Css (elComputedCursor el) \<and>
           map styleCursor (childNodes el') = map cursorAtMount (childNodes el)"
proof -
  have "\<exists>st. run opts evs (mount opts (Some el)) = Inr st \<and> snapshotOf el st"
    by (rule snapshot_run [OF snapshot_mount [OF assms(1)] assms(2)])
  then obtain st where st: "run opts evs (mount opts (Some el)) = Inr st" "snapshotOf el st"
    by blast
  from snapshot_up [OF st(2), of opts x y] st(1) show ?thesis by blast
qed

theorem pointer_up_restores_cursors_witness:
  "isMounted default_options \<and>
   list_all (keepsSnapshot mixed_box) [MouseDown 1 100 0, MouseMove 97 0] \<and>
   (\<exists>st e st' el'.
      run default_options [MouseDown 1 100 0, MouseMove 97 0]
        (mount default_options (Some mixed_box)) = Inr st \<and>
      ref_current st = Some e \<and> elStyleCursor e = Css ''grabbing'' \<and>
      map styleCursor (childNodes e) =
        [Css ''grabbing'', Css ''grabbing'', Css ''crosshair''] \<and>
      dispatch default_options (MouseUp 97 0) st = Inr st' \<and> ref_current st' = Some el' \<and>
      elStyleCursor el' = Css ''default'' \<and>
      map styleCursor (childNodes el') = [Css ''auto'', Css ''pointer'', Css ''crosshair''])"
proof -
  have m: "isMounted default_options"
    by (simp add: example_defs)
  have h: "list_all (keepsSnapshot mixed_box) [MouseDown 1 100 0, MouseMove 97 0]"
    by (simp add: keepsSnapshot_def)
  from pointer_up_restores_cursors [OF m h, of 97 0]
  obtain st e st' el' where st:
    "run default_options [MouseDown 1 100 0, MouseMove 97 0]
        (mount default_options (Some mixed_box)) = Inr st"
    "ref_current st = Some e"
    "dispatch default_options (MouseUp 97 0) st = Inr st'" "ref_current st' = Some el'"
    "elStyleCursor el' = Css (elComputedCursor mixed_box)"
    "map styleCursor (childNodes el') = map cursorAtMount (childNodes mixed_box)"
    by blast
  have "\<exists>s. run default_options [MouseDown 1 100 0, MouseMove 97 0]
        (mount default_options (Some mixed_box)) = Inr s \<and>
      (\<exists>e. ref_current s = Some e \<and> elStyleCursor e = Css ''grabbing'' \<and>
           map styleCursor (childNodes e) =
             [Css ''grabbing'', Css ''grabbing'', Css ''crosshair''])"
    by (simp add: handler_defs example_defs)
  with st(1,2) have g: "elStyleCursor e = Css ''grabbing'' \<and>
      map styleCursor (childNodes e) = [Css ''grabbing'', Css ''grabbing'', Css ''crosshair'']"
    by auto
  have c: "elComputedCursor mixed_box = ''default''"
    "map cursorAtMount (childNodes mixed_box) =
       [Css ''auto'', Css ''pointer'', Css ''crosshair'']"
    by (simp_all add: cursorAtMount_def example_defs)
  from st g c m h show ?thesis
    by auto
qed

text \<open>
  The claim as stated speaks of every pointer-up. When the container is not there yet at the
  hook's first render (and \<open>isMounted\<close> is left at true), the layout effect finds no
  container and captures nothing, and it does not run again when the container appears.
  The listeners are registered all the same: a drag sets \<open>grabbing\<close> on the children, and
  the restoring loop of the pointer-up, guarded by \<open>cursorStyleOfChildElements\<close> being
  defined (line 298), leaves it there.
\<close>

theorem pointer_up_without_snapshot_counterexample:
  "\<not> isl uncaptured_click \<and>
   ref_current (projr uncaptured_click) \<noteq> None \<and>
   \<not> isMouseDown (projr uncaptured_click) \<and>
   cursorStyleOfChildElements (projr uncaptured_click) = None \<and>
   map computedCursor (childNodes scroll_box) = [''auto'', ''pointer''] \<and>
   map styleCursor (childNodes scroll_box) = [Css [], Css []] \<and>
   map styleCursor (childNodes (the (ref_current (projr uncaptured_click)))) =
     [Css ''grabbing'', Css ''grabbing'']"
  by (simp add: uncaptured_click_def handler_defs example_defs)

section \<open>C8: the resize handler\<close>

text \<open>
  Claim C8, as amended. A resize with the container reference absent does nothing. With the
  container present it recomputes the two maxima (content extent minus visible extent) and
  leaves the scrollability flags as the layout effect computed them at mount; the edge
  tests that follow (the one of \<open>onMouseMove\<close> and the ones of the momentum ticks) use the
  recomputed maxima.
\<close>

theorem handleResize_recomputes_maxima:
  "(ref_current st = None \<longrightarrow> handleResize st = st) \<and>
   (\<forall>el. ref_current st = Some el \<longrightarrow>
      maxHorizontalScroll (handleResize st) = real (scrollWidth el) - real (clientWidth el) \<and>
      maxVerticalScroll (handleResize st) = real (scrollHeight el) - real (clientHeight el) \<and>
      isScrollableAlongX (handleResize st) = isScrollableAlongX st \<and>
      isScrollableAlongY (handleResize st) = isScrollableAlongY st \<and>
      isAtAnEdge (handleResize st) el =
        (isScrollableAlongX st \<and>
           (scrollLeft el \<le> 0 \<or> scrollLeft el \<ge> real (scrollWidth el) - real (clientWidth el)) \<or>
         isScrollableAlongY st \<and>
           (scrollTop el \<le> 0 \<or> scrollTop el \<ge> real (scrollHeight el) - real (clientHeight el))) \<and>
      scrollSpeedX (keepMovingX_tick opts (handleResize st)) =
        (if \<bar>scrollSpeedX st * decayRate opts\<bar> < 0.05 \<or> isMouseDown st \<or>
            scrollLeft el \<le> 0 \<or> scrollLeft el \<ge> real (scrollWidth el) - real (clientWidth el)
         then 0 else scrollSpeedX st * decayRate opts) \<and>
      scrollSpeedY (keepMovingY_tick opts (handleResize st)) =
        (if \<bar>scrollSpeedY st * decayRate opts\<bar> < 0.05 \<or> isMouseDown st \<or>
            scrollTop el \<le> 0 \<or> scrollTop el \<ge> real (scrollHeight el) - real (clientHeight el)
         then 0 else scrollSpeedY st * decayRate opts))"
  by (auto simp add: handleResize_def isAtAnEdge_def keepMovingX_tick_def keepMovingY_tick_def
      runScroll_def clearTimer_def minimumSpeedToTriggerMomentum_def Let_def
      split: option.splits)

theorem handleResize_recomputes_maxima_witness:
  "handleResize (initial_state None) = initial_state None \<and>
   maxHorizontalScroll (handleResize (gliding\<lparr>maxHorizontalScroll := 0\<rparr>)) = 200 \<and>
   maxVerticalScroll (handleResize (gliding\<lparr>maxHorizontalScroll := 0\<rparr>)) = 0 \<and>
   \<not> isScrollableAlongX (handleResize (gliding\<lparr>maxHorizontalScroll := 0\<rparr>)) \<and>
   \<not> isAtAnEdge (handleResize (gliding\<lparr>maxHorizontalScroll := 0\<rparr>)) scroll_box \<and>
   scrollSpeedX (keepMovingX_tick default_options
                   (handleResize (gliding\<lparr>maxHorizontalScroll := 0\<rparr>))) = 19 / 10 \<and>
   scrollSpeedX (keepMovingX_tick default_options (gliding\<lparr>maxHorizontalScroll := 0\<rparr>)) = 0"
  using handleResize_recomputes_maxima [of "initial_state None" default_options]
    handleResize_recomputes_maxima [of "gliding\<lparr>maxHorizontalScroll := 0\<rparr>" default_options]
  by (simp add: gliding_def example_defs keepMovingX_tick_def runScroll_def clearTimer_def
      minimumSpeedToTriggerMomentum_def Let_def)

text \<open>
  The claim as stated has the resize recompute the scrollability flags from the overflow
  style. Mounted on a container with \<open>overflow-x: auto\<close> whose overflow then becomes
  \<open>scroll\<close>, the hook still holds \<open>isScrollableAlongX = false\<close> after a resize.
\<close>

theorem handleResize_flags_counterexample:
  "\<not> isl resized_after_overflow_change \<and>
   ref_current (projr resized_after_overflow_change) \<noteq> None \<and>
   overflowX (the (ref_current (projr resized_after_overflow_change))) = ''scroll'' \<and>
   \<not> isScrollableAlongX (projr resized_after_overflow_change) \<and>
   maxHorizontalScroll (projr resized_after_overflow_change) = 200"
  by (simp add: resized_after_overflow_change_def handler_defs example_defs)

section \<open>C9: when the speeds can be non-zero\<close>




section \<open>C10: a tick without a container\<close>

text \<open>
  Claim C10. A momentum tick on either axis that finds the container reference absent leaves
  every field of the state as it was and does not clear the interval: the handle stays live,
  any number of such ticks changes nothing, and the loop does not end while the reference
  is absent (whatever the fuel). The cleanup of the effect removes the interval that
  \<open>keepMovingX\<close> or \<open>keepMovingY\<close> names.
\<close>

theorem absent_container_tick_is_noop:
  assumes "ref_current st = None" and "liveInterval st h"
  shows "keepMovingX_tick opts st = st \<and> keepMovingY_tick opts st = st \<and>
         dispatch opts (Fire h) st = Inr st \<and>
         ticks opts h n st = st \<and> liveInterval (ticks opts h n st) h \<and>
         momentumLoop opts h n st = None \<and>
         (keepMovingX st = Some h \<or> keepMovingY st = Some h \<longrightarrow>
            \<not> liveInterval (useEffect_cleanup st) h)"
proof -
  have x: "keepMovingX_tick opts st = st" and y: "keepMovingY_tick opts st = st"
    using assms(1) by (simp_all add: keepMovingX_tick_def keepMovingY_tick_def)
  have "keepMovingX_tick opts (seenBy h st) = seenBy h st"
    and "keepMovingY_tick opts (seenBy h st) = seenBy h st"
    using assms(1) by (simp_all add: keepMovingX_tick_def keepMovingY_tick_def)
  then have d: "dispatch opts (Fire h) st = Inr st"
    using assms(2) by (auto simp add: dispatch_def liveInterval_def)
  have c: "keepMovingX st = Some h \<or> keepMovingY st = Some h \<longrightarrow>
            \<not> liveInterval (useEffect_cleanup st) h"
    using cleanup_clears [of st h] by (auto simp add: liveInterval_def)
  show ?thesis
    using assms x y d c by (simp add: ticks_absent momentumLoop_absent)
qed

theorem absent_container_tick_is_noop_witness:
  "\<exists>st. run default_options [MouseDown 1 100 0, MouseMove 50 0, MouseUp 50 0, Host None]
           (mount default_options (Some scroll_box)) = Inr st \<and>
      ref_current st = None \<and> liveInterval st 1 \<and> keepMovingX st = Some 1 \<and>
      dispatch default_options (Fire 1) st = Inr st \<and>
      ticks default_options 1 7 st = st \<and>
      momentumLoop default_options 1 7 st = None \<and>
      \<not> liveInterval (useEffect_cleanup st) 1"
proof -
  have "\<exists>st. run default_options [MouseDown 1 100 0, MouseMove 50 0, MouseUp 50 0, Host None]
           (mount default_options (Some scroll_box)) = Inr st \<and>
      ref_current st = None \<and> liveInterval st 1 \<and> keepMovingX st = Some 1"
    by (simp add: handler_defs example_defs liveInterval_def)
  then obtain st where st:
    "run default_options [MouseDown 1 100 0, MouseMove 50 0, MouseUp 50 0, Host None]
           (mount default_options (Some scroll_box)) = Inr st"
    "ref_current st = None" "liveInterval st 1" "keepMovingX st = Some 1"
    by blast
  from absent_container_tick_is_noop [OF st(2) st(3), of default_options 7] st
  show ?thesis by blast
qed

end
